theory Spec2Isabelle
  imports Main
begin

section \<open>The MSRD package based submission client (Python/msrd.py)\<close>

text \<open>
  The client uploads local files, builds one file information entry per upload, appends
  the entries to the list at \<open>setup.package.fileInformations\<close> of a job document
  and posts the document. The document is a tree of Python dicts and lists that the
  code mutates in place, so it lives in an explicit store; printing, the network calls
  and the list mutations are logged in a trace, in program order; \<open>exit(1)\<close> and
  uncaught exceptions are values.
\<close>

subsection \<open>Strings: \<open>str.strip\<close>, \<open>Path.name\<close>, decimal formatting\<close>

text \<open>
  \<open>s.strip(chars)\<close> drops every leading and every trailing character of \<open>s\<close> that
  occurs in \<open>chars\<close>. A \<open>char\<close> is a byte here; the double quote is ASCII, and no
  byte of a longer UTF-8 sequence equals it, so stripping quotes agrees with Python's
  stripping of code points.
\<close>

definition py_strip :: "string \<Rightarrow> string \<Rightarrow> string" where
  "py_strip chars s =
     rev (dropWhile (\<lambda>c. c \<in> set chars) (rev (dropWhile (\<lambda>c. c \<in> set chars) s)))"

text \<open>The argument of \<open>strip\<close> at line 126: the one-character string \<open>'"'\<close>.\<close>

definition dquote :: string where
  "dquote = [CHR 0x22]"

text \<open>
  \<open>Path(file).name\<close> on a POSIX system: the path is cut at every slash, empty
  components and \<open>.\<close> components are dropped, and the name is the last component left,
  or the empty string when none is left.
\<close>

fun split_on :: "char \<Rightarrow> string \<Rightarrow> string list" where
  "split_on c [] = [[]]"
| "split_on c (x # xs) =
     (if x = c then [] # split_on c xs
      else (case split_on c xs of
              [] \<Rightarrow> [[x]]
            | p # ps \<Rightarrow> (x # p) # ps))"

definition path_parts :: "string \<Rightarrow> string list" where
  "path_parts file = filter (\<lambda>p. p \<noteq> [] \<and> p \<noteq> ''.'') (split_on CHR ''/'' file)"

definition path_name :: "string \<Rightarrow> string" where
  "path_name file = (case rev (path_parts file) of [] \<Rightarrow> [] | p # _ \<Rightarrow> p)"

text \<open>\<open>'{}'.format(n)\<close> for a non-negative integer: its decimal digits.\<close>

definition digit_char :: "nat \<Rightarrow> char" where
  "digit_char d = ''0123456789'' ! (d mod 10)"

function str_nat :: "nat \<Rightarrow> string" where
  "str_nat n = (if n < 10 then [digit_char n] else str_nat (n div 10) @ [digit_char n])"
  by pat_completeness auto
termination
  by (relation "measure id") auto

declare str_nat.simps [simp del]

subsection \<open>Python values, the store and JSON\<close>

type_synonym addr = nat

text \<open>
  Strings and numbers are immutable values; a dict or a list is an object of the store,
  and a value refers to it by its address. A float is kept as its literal: no
  operation of the client looks into one. A dict is the list of its items in
  insertion order.
\<close>

datatype pyval =
    VNone
  | VBool bool
  | VInt int
  | VFloat string
  | VStr string
  | VRef addr

datatype pyobj =
    ODict "(string \<times> pyval) list"
  | OList "pyval list"

type_synonym heap = "pyobj list"

text \<open>
  An address outside the store names no object. \<open>json.load\<close> and the dict literal
  of the client never produce one; the operations below treat it like a value that is
  neither a dict nor a list.
\<close>

definition lookup :: "heap \<Rightarrow> addr \<Rightarrow> pyobj option" where
  "lookup h a = (if a < length h then Some (h ! a) else None)"

datatype json =
    JNull
  | JBool bool
  | JInt int
  | JFloat string
  | JStr string
  | JArr "json list"
  | JObj "(string \<times> json) list"

text \<open>\<open>d[k] = v\<close>: an existing key keeps its place, a new key goes last.\<close>

fun dict_set :: "string \<Rightarrow> pyval \<Rightarrow> (string \<times> pyval) list \<Rightarrow> (string \<times> pyval) list" where
  "dict_set k v [] = [(k, v)]"
| "dict_set k v ((k', v') # kvs) =
     (if k = k' then (k, v) # kvs else (k', v') # dict_set k v kvs)"

text \<open>
  \<open>json.load\<close>, after parsing: every array becomes a new list object and every object
  a new dict object, children first; of a repeated key the last value stays.
\<close>

fun load :: "json \<Rightarrow> heap \<Rightarrow> pyval \<times> heap"
  and load_list :: "json list \<Rightarrow> heap \<Rightarrow> pyval list \<times> heap"
  and load_items :: "(string \<times> json) list \<Rightarrow> (string \<times> pyval) list \<Rightarrow> heap
                       \<Rightarrow> (string \<times> pyval) list \<times> heap" where
  "load JNull h = (VNone, h)"
| "load (JBool b) h = (VBool b, h)"
| "load (JInt i) h = (VInt i, h)"
| "load (JFloat f) h = (VFloat f, h)"
| "load (JStr s) h = (VStr s, h)"
| "load (JArr js) h =
     (case load_list js h of (vs, h') \<Rightarrow> (VRef (length h'), h' @ [OList vs]))"
| "load (JObj kjs) h =
     (case load_items kjs [] h of (kvs, h') \<Rightarrow> (VRef (length h'), h' @ [ODict kvs]))"
| "load_list [] h = ([], h)"
| "load_list (j # js) h =
     (case load j h of (v, h') \<Rightarrow>
        (case load_list js h' of (vs, h'') \<Rightarrow> (v # vs, h'')))"
| "load_items [] acc h = (acc, h)"
| "load_items ((k, j) # kjs) acc h =
     (case load j h of (v, h') \<Rightarrow> load_items kjs (dict_set k v acc) h')"

text \<open>
  The document a value stands for, as \<open>json.dump\<close> walks it. The walk is bounded by
  its first argument; \<open>to_json\<close> gives it one step more than the store has objects,
  which is enough for every value that reaches no object twice on one path, and a
  cyclic value (on which \<open>json.dump\<close> raises) has no document.
\<close>

fun dump :: "nat \<Rightarrow> heap \<Rightarrow> pyval \<Rightarrow> json option" where
  "dump n h VNone = Some JNull"
| "dump n h (VBool b) = Some (JBool b)"
| "dump n h (VInt i) = Some (JInt i)"
| "dump n h (VFloat f) = Some (JFloat f)"
| "dump n h (VStr s) = Some (JStr s)"
| "dump 0 h (VRef a) = None"
| "dump (Suc n) h (VRef a) =
     (case lookup h a of
        None \<Rightarrow> None
      | Some (OList vs) \<Rightarrow> map_option JArr (those (map (dump n h) vs))
      | Some (ODict kvs) \<Rightarrow>
          map_option JObj
            (those (map (\<lambda>kv. map_option (Pair (fst kv)) (dump n h (snd kv))) kvs)))"

definition to_json :: "heap \<Rightarrow> pyval \<Rightarrow> json option" where
  "to_json h v = dump (Suc (length h)) h v"

subsection \<open>The world: store and trace; exceptions; the environment\<close>

datatype event =
    Print string
  | Put string
  | Post json
  | ListAppend addr pyval

record world =
  heap :: heap
  trace :: "event list"

definition log :: "event \<Rightarrow> world \<Rightarrow> world" where
  "log e w = w\<lparr>trace := trace w @ [e]\<rparr>"

definition alloc :: "pyobj \<Rightarrow> world \<Rightarrow> pyval \<times> world" where
  "alloc obj w = (VRef (length (heap w)), w\<lparr>heap := heap w @ [obj]\<rparr>)"

datatype exn =
    SystemExit nat
  | OSError
  | RequestException
  | UnsupportedOperation
  | JSONDecodeError
  | RecursionError
  | ValueError
  | KeyError
  | TypeError
  | AttributeError

record response =
  status_code :: nat
  reason :: string
  url :: string
  resp_text :: string

text \<open>
  What the client cannot decide by itself: the file system, the remote service and the
  JSON library. Each answer may depend on what has happened so far (the trace).
  \<^item> \<open>stat_size\<close>: \<open>Path(file).stat().st_size\<close>, \<open>None\<close> when \<open>stat\<close> raises;
  \<^item> \<open>open_rb\<close>: whether \<open>open(file, 'rb')\<close> succeeds;
  \<^item> \<open>put_response\<close>: the response of the upload request, \<open>None\<close> when the
    request raises;
  \<^item> \<open>post_response\<close>: the same for the job submission;
  \<^item> \<open>read_job\<close>: \<open>open(job_path)\<close> and the parse of \<open>json.load\<close>;
  \<^item> \<open>open_r\<close>: whether \<open>open(path)\<close>, which opens for reading, succeeds;
  \<^item> \<open>json_loads\<close>: the decoder behind \<open>response.json()\<close>, with the exception
    it raises for a body it does not decode: \<open>json.JSONDecodeError\<close> for text that
    is not JSON, but also \<open>RecursionError\<close> (a body nested too deeply) or
    \<open>ValueError\<close> (a number with too many digits);
  \<^item> \<open>json_dumps\<close>: \<open>json.dumps(_, indent=2)\<close>.
\<close>

record env =
  stat_size :: "event list \<Rightarrow> string \<Rightarrow> nat option"
  open_rb :: "event list \<Rightarrow> string \<Rightarrow> bool"
  put_response :: "event list \<Rightarrow> string \<Rightarrow> response option"
  post_response :: "event list \<Rightarrow> json \<Rightarrow> response option"
  read_job :: "event list \<Rightarrow> string \<Rightarrow> exn + json"
  open_r :: "event list \<Rightarrow> string \<Rightarrow> bool"
  json_loads :: "string \<Rightarrow> exn + json"
  json_dumps :: "json \<Rightarrow> string"

subsection \<open>The client (lines 11 to 92)\<close>

text \<open>The session's response hook (lines 32 to 42) prints one line per response.\<close>

definition hook_line :: "response \<Rightarrow> string" where
  "hook_line r = str_nat (status_code r) @ '' '' @ reason r @ '' '' @ url r"

definition upload_file :: "env \<Rightarrow> string \<Rightarrow> world \<Rightarrow> (exn + response) \<times> world" where
  "upload_file e file_path w =
     (if \<not> open_rb e (trace w) file_path then (Inl OSError, w)
      else
        (case put_response e (trace w) file_path of
           None \<Rightarrow> (Inl RequestException, log (Put file_path) w)
         | Some r \<Rightarrow> (Inr r, log (Print (hook_line r)) (log (Put file_path) w))))"

definition submit_job :: "env \<Rightarrow> pyval \<Rightarrow> world \<Rightarrow> (exn + response) \<times> world" where
  "submit_job e job w =
     (case to_json (heap w) job of
        None \<Rightarrow> (Inl ValueError, w)
      | Some j \<Rightarrow>
          (case post_response e (trace w) j of
             None \<Rightarrow> (Inl RequestException, log (Post j) w)
           | Some r \<Rightarrow> (Inr r, log (Print (hook_line r)) (log (Post j) w))))"

subsection \<open>\<open>print_response\<close> (lines 95 to 102)\<close>

text \<open>
  The handler of line 101 catches \<open>json.JSONDecodeError\<close> only; any other exception
  of the decoder leaves the function.
\<close>

definition print_response :: "env \<Rightarrow> response \<Rightarrow> world \<Rightarrow> (exn + unit) \<times> world" where
  "print_response e r w =
     (case json_loads e (resp_text r) of
        Inr j \<Rightarrow> (Inr (), log (Print (json_dumps e j)) w)
      | Inl x \<Rightarrow>
          if x = JSONDecodeError then (Inr (), log (Print (resp_text r)) w)
          else (Inl x, w))"

subsection \<open>\<open>upload_file_and_generate_file_info\<close> (lines 107 to 132)\<close>

definition MAX_FILE_SIZE :: nat where
  "MAX_FILE_SIZE = 4194304"

definition size_error :: "string \<Rightarrow> nat \<Rightarrow> string" where
  "size_error file sz =
     ''ERROR: file '' @ dquote @ file @ dquote @ '' has byte size '' @ str_nat sz
       @ '', which exceeds limit of 4mb''"

definition file_information :: "string \<Rightarrow> string \<Rightarrow> pyobj" where
  "file_information name file_url =
     ODict [(''action'', VStr ''DownloadOnly''), (''name'', VStr name), (''url'', VStr file_url)]"

definition upload_file_and_generate_file_info ::
    "env \<Rightarrow> string \<Rightarrow> world \<Rightarrow> (exn + pyval) \<times> world" where
  "upload_file_and_generate_file_info e file w =
     (case stat_size e (trace w) file of
        None \<Rightarrow> (Inl OSError, w)
      | Some sz \<Rightarrow>
          if sz > MAX_FILE_SIZE
          then (Inl (SystemExit 1), log (Print (size_error file sz)) w)
          else
            (case upload_file e file w of
               (Inl x, w') \<Rightarrow> (Inl x, w')
             | (Inr r, w') \<Rightarrow>
                 (case alloc (file_information (path_name file) (py_strip dquote (resp_text r))) w' of
                    (info, w'') \<Rightarrow> (Inr info, w''))))"

subsection \<open>\<open>update_file_info_in_job\<close> (lines 135 to 146)\<close>

text \<open>\<open>obj[key]\<close> for a string key.\<close>

definition getitem :: "heap \<Rightarrow> pyval \<Rightarrow> string \<Rightarrow> exn + pyval" where
  "getitem h obj key =
     (case obj of
        VRef a \<Rightarrow>
          (case lookup h a of
             Some (ODict kvs) \<Rightarrow>
               (case map_of kvs key of None \<Rightarrow> Inl KeyError | Some v \<Rightarrow> Inr v)
           | _ \<Rightarrow> Inl TypeError)
      | _ \<Rightarrow> Inl TypeError)"

text \<open>\<open>obj.append(x)\<close>: only a list has the method.\<close>

definition list_append :: "pyval \<Rightarrow> pyval \<Rightarrow> world \<Rightarrow> (exn + unit) \<times> world" where
  "list_append obj x w =
     (case obj of
        VRef a \<Rightarrow>
          (case lookup (heap w) a of
             Some (OList vs) \<Rightarrow>
               (Inr (), log (ListAppend a x) (w\<lparr>heap := (heap w)[a := OList (vs @ [x])]\<rparr>))
           | _ \<Rightarrow> (Inl AttributeError, w))
      | _ \<Rightarrow> (Inl AttributeError, w))"

text \<open>The body of the \<open>try\<close> at line 141.\<close>

definition append_file_info :: "pyval \<Rightarrow> pyval \<Rightarrow> world \<Rightarrow> (exn + unit) \<times> world" where
  "append_file_info job file_info w =
     (case getitem (heap w) job ''setup'' of
        Inl x \<Rightarrow> (Inl x, w)
      | Inr setup \<Rightarrow>
          (case getitem (heap w) setup ''package'' of
             Inl x \<Rightarrow> (Inl x, w)
           | Inr package \<Rightarrow>
               (case getitem (heap w) package ''fileInformations'' of
                  Inl x \<Rightarrow> (Inl x, w)
                | Inr infos \<Rightarrow> list_append infos file_info w)))"

definition missing_message :: string where
  "missing_message = ''Job file input is missing required setup.package.fileInformations data.''"

text \<open>\<open>except (KeyError, TypeError, AttributeError)\<close>.\<close>

definition caught :: "exn \<Rightarrow> bool" where
  "caught x = (x = KeyError \<or> x = TypeError \<or> x = AttributeError)"

fun update_file_info_in_job :: "pyval \<Rightarrow> pyval list \<Rightarrow> world \<Rightarrow> (exn + pyval) \<times> world" where
  "update_file_info_in_job job [] w = (Inr job, w)"
| "update_file_info_in_job job (file_info # file_infos) w =
     (case append_file_info job file_info w of
        (Inl x, w') \<Rightarrow>
          if caught x then (Inl (SystemExit 1), log (Print missing_message) w')
          else (Inl x, w')
      | (Inr _, w') \<Rightarrow> update_file_info_in_job job file_infos w')"

subsection \<open>\<open>add_file_info_to_job\<close> (lines 149 to 172)\<close>

text \<open>The loop of lines 164 to 167, with the list \<open>file_info\<close> as its accumulator.\<close>

fun upload_loop :: "env \<Rightarrow> string list \<Rightarrow> pyval list \<Rightarrow> world \<Rightarrow> (exn + pyval list) \<times> world" where
  "upload_loop e [] file_info w = (Inr file_info, w)"
| "upload_loop e (file # files) file_info w =
     (case upload_file_and_generate_file_info e file w of
        (Inl x, w') \<Rightarrow> (Inl x, w')
      | (Inr info, w') \<Rightarrow> upload_loop e files (file_info @ [info]) w')"

definition add_file_info_to_job ::
    "env \<Rightarrow> pyval \<Rightarrow> string list \<Rightarrow> world \<Rightarrow> (exn + pyval) \<times> world" where
  "add_file_info_to_job e job files w =
     (case upload_loop e files [] w of
        (Inl x, w') \<Rightarrow> (Inl x, w')
      | (Inr file_info, w') \<Rightarrow>
          if file_info \<noteq> [] then update_file_info_in_job job file_info w'
          else (Inr job, w'))"

subsection \<open>\<open>submit\<close> (lines 239 to 252)\<close>

text \<open>
  Lines 249 and 250: \<open>open(output_job_path)\<close> has no mode, so the file is opened for
  reading, and the first \<open>write\<close> of \<open>json.dump\<close> raises \<open>io.UnsupportedOperation\<close>.
  \<open>json.dump\<close> writes its first chunk before it looks any deeper into the value, so
  this happens for every job.
\<close>

definition write_output :: "env \<Rightarrow> string \<Rightarrow> pyval \<Rightarrow> world \<Rightarrow> (exn + unit) \<times> world" where
  "write_output e output_job_path job w =
     (if \<not> open_r e (trace w) output_job_path then (Inl OSError, w)
      else (Inl UnsupportedOperation, w))"

text \<open>\<open>if output_job_path:\<close> holds for a string that is not empty.\<close>

definition truthy :: "string option \<Rightarrow> bool" where
  "truthy p = (case p of None \<Rightarrow> False | Some s \<Rightarrow> s \<noteq> [])"

definition submit ::
    "env \<Rightarrow> string \<Rightarrow> string option \<Rightarrow> string list \<Rightarrow> world \<Rightarrow> (exn + unit) \<times> world" where
  "submit e job_path output_job_path files w =
     (case read_job e (trace w) job_path of
        Inl x \<Rightarrow> (Inl x, w)
      | Inr j \<Rightarrow>
          (case load j (heap w) of
             (job0, h0) \<Rightarrow>
               (case add_file_info_to_job e job0 files (w\<lparr>heap := h0\<rparr>) of
                  (Inl x, w1) \<Rightarrow> (Inl x, w1)
                | (Inr job, w1) \<Rightarrow>
                    (case (if truthy output_job_path
                           then write_output e (the output_job_path) job w1
                           else (Inr (), w1)) of
                       (Inl x, w2) \<Rightarrow> (Inl x, w2)
                     | (Inr _, w2) \<Rightarrow>
                         (case submit_job e job w2 of
                            (Inl x, w3) \<Rightarrow> (Inl x, w3)
                          | (Inr r, w3) \<Rightarrow> print_response e r w3)))))"

subsection \<open>Reading the store\<close>

text \<open>
  Where the path \<open>setup.package.fileInformations\<close> of a job leads: the address and the
  entries of the list object there, or \<open>None\<close> when a key on the way is absent, an
  ancestor is not a dict, or the value found is not a list.
\<close>

definition file_infos_list :: "heap \<Rightarrow> pyval \<Rightarrow> (addr \<times> pyval list) option" where
  "file_infos_list h job =
     (case getitem h job ''setup'' of
        Inl _ \<Rightarrow> None
      | Inr setup \<Rightarrow>
          (case getitem h setup ''package'' of
             Inl _ \<Rightarrow> None
           | Inr package \<Rightarrow>
               (case getitem h package ''fileInformations'' of
                  Inr (VRef a) \<Rightarrow>
                    (case lookup h a of Some (OList vs) \<Rightarrow> Some (a, vs) | _ \<Rightarrow> None)
                | _ \<Rightarrow> None)))"

text \<open>The items of the dict a value refers to.\<close>

definition dict_items :: "heap \<Rightarrow> pyval \<Rightarrow> (string \<times> pyval) list option" where
  "dict_items h v =
     (case v of
        VRef a \<Rightarrow> (case lookup h a of Some (ODict kvs) \<Rightarrow> Some kvs | _ \<Rightarrow> None)
      | _ \<Rightarrow> None)"

definition is_put :: "event \<Rightarrow> bool" where
  "is_put ev = (case ev of Put _ \<Rightarrow> True | _ \<Rightarrow> False)"

definition is_append :: "event \<Rightarrow> bool" where
  "is_append ev = (case ev of ListAppend _ _ \<Rightarrow> True | _ \<Rightarrow> False)"

definition is_post :: "event \<Rightarrow> bool" where
  "is_post ev = (case ev of Post _ \<Rightarrow> True | _ \<Rightarrow> False)"

subsection \<open>A concrete environment for the examples\<close>

text \<open>
  Every file has \<open>sz\<close> bytes, every upload answers 200 with the body \<open>body\<close>, and the
  job file holds the document \<open>template\<close>.
\<close>

text \<open>
  A decoder and a printer for the examples. They agree with \<open>json.loads\<close> and
  \<open>json.dumps(_, indent=2)\<close> on the bodies and values the examples use: a body that
  opens 100000 arrays exhausts the recursion limit, \<open>{}\<close> and \<open>null\<close> decode, and
  text such as \<open><html>\<close> is refused with \<open>json.JSONDecodeError\<close>.
\<close>

definition example_loads :: "string \<Rightarrow> exn + json" where
  "example_loads s =
     (if 100000 \<le> length (takeWhile (\<lambda>c. c = CHR ''['') s) then Inl RecursionError
      else if s = ''{}'' then Inr (JObj [])
      else if s = ''null'' then Inr JNull
      else Inl JSONDecodeError)"

definition example_dumps :: "json \<Rightarrow> string" where
  "example_dumps j =
     (if j = JObj [] then ''{}''
      else if j = JArr [] then ''[]''
      else if j = JNull then ''null''
      else if j = JBool True then ''true''
      else if j = JBool False then ''false''
      else [])"

definition ok_response :: "string \<Rightarrow> response" where
  "ok_response body =
     \<lparr>status_code = 200, reason = ''OK'', url = ''https://msrd.test/'', resp_text = body\<rparr>"

definition example_env :: "nat \<Rightarrow> string \<Rightarrow> json \<Rightarrow> env" where
  "example_env sz body template =
     \<lparr>stat_size = (\<lambda>_ _. Some sz),
      open_rb = (\<lambda>_ _. True),
      put_response = (\<lambda>_ _. Some (ok_response body)),
      post_response = (\<lambda>_ _. Some (ok_response ''{}'')),
      read_job = (\<lambda>_ _. Inr template),
      open_r = (\<lambda>_ _. True),
      json_loads = example_loads,
      json_dumps = example_dumps\<rparr>"

definition empty_world :: world where
  "empty_world = \<lparr>heap = [], trace = []\<rparr>"

text \<open>The template \<open>{"setup":{"package":{"fileInformations":[]}}}\<close>.\<close>

definition example_template :: json where
  "example_template = JObj [(''setup'', JObj [(''package'', JObj [(''fileInformations'', JArr [])])])]"

text \<open>The template loaded into an empty store, and a store with an empty dict only.\<close>

definition example_job :: pyval where
  "example_job = fst (load example_template [])"

definition example_world :: world where
  "example_world = \<lparr>heap = snd (load example_template []), trace = []\<rparr>"

definition bare_world :: world where
  "bare_world = \<lparr>heap = [ODict []], trace = []\<rparr>"

text \<open>
  Every upload answers \<open>"u"\<close>; in \<open>flaky_env\<close> the upload of \<open>b.txt\<close> raises instead.
\<close>

definition two_files_env :: env where
  "two_files_env = example_env 10 (dquote @ ''u'' @ dquote) example_template"

definition flaky_env :: env where
  "flaky_env =
     (example_env 10 (dquote @ ''u'' @ dquote) example_template)
       \<lparr>put_response :=
          (\<lambda>_ f. if f = ''b.txt'' then None else Some (ok_response (dquote @ ''u'' @ dquote)))\<rparr>"

text \<open>
  In \<open>server_error_env\<close> every upload is answered with status 500 and an error text.
\<close>

definition error_response :: response where
  "error_response =
     \<lparr>status_code = 500, reason = ''Internal Server Error'', url = ''https://msrd.test/'',
      resp_text = ''upload failed''\<rparr>"

definition server_error_env :: env where
  "server_error_env =
     (example_env 10 [] example_template)\<lparr>put_response := (\<lambda>_ _. Some error_response)\<rparr>"

text \<open>
  The \<open>url\<close> entry of the file information generated for a file, read from the store
  after the call.
\<close>

definition generated_url :: "env \<Rightarrow> string \<Rightarrow> world \<Rightarrow> string option" where
  "generated_url e file w =
     (case upload_file_and_generate_file_info e file w of
        (Inl x, w') \<Rightarrow> None
      | (Inr info, w') \<Rightarrow>
          (case dict_items (heap w') info of
             None \<Rightarrow> None
           | Some kvs \<Rightarrow> (case map_of kvs ''url'' of Some (VStr u) \<Rightarrow> Some u | _ \<Rightarrow> None)))"

text \<open>
  A whole assembly on documents: the template is loaded into an empty store, the files
  are attached, and the document of the result is read back.
\<close>

definition assemble_json :: "env \<Rightarrow> json \<Rightarrow> string list \<Rightarrow> json option" where
  "assemble_json e template files =
     (case load template [] of
        (job, h) \<Rightarrow>
          (case add_file_info_to_job e job files \<lparr>heap = h, trace = []\<rparr> of
             (Inl x, w') \<Rightarrow> None
           | (Inr job', w') \<Rightarrow> to_json (heap w') job'))"

text \<open>The \<open>name\<close> entry of the dict a value refers to.\<close>

definition entry_name :: "heap \<Rightarrow> pyval \<Rightarrow> pyval option" where
  "entry_name h v = (case dict_items h v of None \<Rightarrow> None | Some kvs \<Rightarrow> map_of kvs ''name'')"

subsection \<open>The specification's reading of the unquoting\<close>

text \<open>
  Following the specification's words, not the code: exactly one leading and one
  trailing double quote are removed from the upload response.
\<close>

definition spec_strip_one_quote :: "string \<Rightarrow> string" where
  "spec_strip_one_quote s =
     (let t = (case s of [] \<Rightarrow> [] | c # cs \<Rightarrow> if c = CHR 0x22 then cs else s)
      in if t \<noteq> [] \<and> last t = CHR 0x22 then butlast t else t)"

section \<open>Properties\<close>

subsection \<open>The store under allocation and update\<close>

lemma lookup_append_old: "a < length h \<Longrightarrow> lookup (h @ ext) a = lookup h a"
  by (simp add: lookup_def nth_append)

lemma lookup_Some_less: "lookup h a = Some obj \<Longrightarrow> a < length h"
  by (simp add: lookup_def split: if_splits)

lemma lookup_update_other: "b \<noteq> a \<Longrightarrow> lookup (h[a := x]) b = lookup h b"
  by (simp add: lookup_def)

lemma lookup_update_same: "a < length h \<Longrightarrow> lookup (h[a := x]) a = Some x"
  by (simp add: lookup_def)

lemma upload_file_effect:
  assumes "upload_file e f w = (r, w')"
  shows "heap w' = heap w \<and> (\<exists>evs. trace w' = trace w @ evs \<and> (\<forall>ev\<in>set evs. \<not> is_append ev))"
  using assms
  by (auto simp: upload_file_def log_def is_append_def split: if_splits option.splits)

lemma gen_info_Inr:
  assumes "upload_file_and_generate_file_info e f w = (Inr info, w')"
  shows "\<exists>r w1. upload_file e f w = (Inr r, w1) \<and> info = VRef (length (heap w)) \<and>
           w' = w1\<lparr>heap := heap w @ [file_information (path_name f) (py_strip dquote (resp_text r))]\<rparr>"
proof -
  from assms obtain sz where sz: "stat_size e (trace w) f = Some sz" "\<not> sz > MAX_FILE_SIZE"
    by (auto simp: upload_file_and_generate_file_info_def split: option.splits if_splits)
  obtain r0 w1 where u: "upload_file e f w = (r0, w1)" by (cases "upload_file e f w")
  with assms sz obtain r where r: "r0 = Inr r"
    by (cases r0) (auto simp: upload_file_and_generate_file_info_def)
  have h: "heap w1 = heap w" using upload_file_effect [OF u] by simp
  from assms sz u r h show ?thesis
    by (auto simp: upload_file_and_generate_file_info_def alloc_def)
qed

lemma gen_info_effect:
  assumes "upload_file_and_generate_file_info e f w = (r, w')"
  shows "\<exists>ext evs. heap w' = heap w @ ext \<and> trace w' = trace w @ evs \<and>
           (\<forall>ev\<in>set evs. \<not> is_append ev) \<and>
           (\<forall>obj\<in>set ext. \<exists>n u. obj = file_information n u)"
proof (cases r)
  case (Inr info)
  with assms gen_info_Inr obtain r1 w1 where
    u: "upload_file e f w = (Inr r1, w1)" and
    w': "w' = w1\<lparr>heap := heap w @ [file_information (path_name f) (py_strip dquote (resp_text r1))]\<rparr>"
    by blast
  from upload_file_effect [OF u] w' show ?thesis by auto
next
  case (Inl x)
  show ?thesis
  proof (cases "stat_size e (trace w) f")
    case None
    with assms show ?thesis by (simp add: upload_file_and_generate_file_info_def)
  next
    case (Some sz)
    show ?thesis
    proof (cases "sz > MAX_FILE_SIZE")
      case True
      with assms Some show ?thesis
        by (auto simp: upload_file_and_generate_file_info_def log_def is_append_def)
    next
      case False
      obtain r0 w1 where u: "upload_file e f w = (r0, w1)" by (cases "upload_file e f w")
      with assms Some False Inl have "w' = w1"
        by (cases r0) (auto simp: upload_file_and_generate_file_info_def alloc_def)
      with upload_file_effect [OF u] show ?thesis by auto
    qed
  qed
qed

lemma upload_loop_effect:
  "upload_loop e files acc w = (r, w') \<Longrightarrow>
     \<exists>ext evs. heap w' = heap w @ ext \<and> trace w' = trace w @ evs \<and>
       (\<forall>ev\<in>set evs. \<not> is_append ev) \<and>
       (\<forall>obj\<in>set ext. \<exists>n u. obj = file_information n u)"
proof (induction files arbitrary: acc w)
  case Nil
  then show ?case by auto
next
  case (Cons f files)
  obtain r0 w0 where g: "upload_file_and_generate_file_info e f w = (r0, w0)"
    by (cases "upload_file_and_generate_file_info e f w")
  from gen_info_effect [OF g] obtain ext0 evs0 where
    e0: "heap w0 = heap w @ ext0" "trace w0 = trace w @ evs0"
        "\<forall>ev\<in>set evs0. \<not> is_append ev" "\<forall>obj\<in>set ext0. \<exists>n u. obj = file_information n u"
    by blast
  show ?case
  proof (cases r0)
    case (Inl x)
    with Cons.prems g have "w' = w0" by simp
    with e0 show ?thesis by blast
  next
    case (Inr info)
    with Cons.prems g have "upload_loop e files (acc @ [info]) w0 = (r, w')" by simp
    from Cons.IH [OF this] obtain ext1 evs1 where
      e1: "heap w' = heap w0 @ ext1" "trace w' = trace w0 @ evs1"
          "\<forall>ev\<in>set evs1. \<not> is_append ev" "\<forall>obj\<in>set ext1. \<exists>n u. obj = file_information n u"
      by blast
    have "heap w' = heap w @ (ext0 @ ext1)" "trace w' = trace w @ (evs0 @ evs1)"
      using e0 e1 by simp_all
    moreover have "\<forall>ev\<in>set (evs0 @ evs1). \<not> is_append ev" using e0 e1 by auto
    moreover have "\<forall>obj\<in>set (ext0 @ ext1). \<exists>n u. obj = file_information n u" using e0 e1 by auto
    ultimately show ?thesis by blast
  qed
qed

lemma upload_loop_Inr:
  "upload_loop e files acc w = (Inr infos, w') \<Longrightarrow>
     \<exists>dicts. heap w' = heap w @ dicts \<and> length dicts = length files \<and>
       infos = acc @ map VRef [length (heap w) ..< length (heap w) + length files] \<and>
       (\<forall>i<length files. \<exists>u. dicts ! i = file_information (path_name (files ! i)) u)"
proof (induction files arbitrary: acc w)
  case Nil
  then show ?case by auto
next
  case (Cons f files)
  obtain r0 w0 where g: "upload_file_and_generate_file_info e f w = (r0, w0)"
    by (cases "upload_file_and_generate_file_info e f w")
  with Cons.prems obtain info where r0: "r0 = Inr info"
    by (cases r0) auto
  from gen_info_Inr [OF g [unfolded r0]] obtain r1 w1 where
    u: "upload_file e f w = (Inr r1, w1)" and info: "info = VRef (length (heap w))" and
    w0: "w0 = w1\<lparr>heap := heap w @ [file_information (path_name f) (py_strip dquote (resp_text r1))]\<rparr>"
    by blast
  let ?d = "file_information (path_name f) (py_strip dquote (resp_text r1))"
  have h0: "heap w0 = heap w @ [?d]" using w0 by simp
  from Cons.prems g r0 have "upload_loop e files (acc @ [info]) w0 = (Inr infos, w')" by simp
  from Cons.IH [OF this] obtain dicts where
    d: "heap w' = heap w0 @ dicts" "length dicts = length files"
       "infos = (acc @ [info]) @ map VRef [length (heap w0) ..< length (heap w0) + length files]"
       "\<forall>i<length files. \<exists>u. dicts ! i = file_information (path_name (files ! i)) u"
    by blast
  have 1: "heap w' = heap w @ (?d # dicts)" using d(1) h0 by simp
  have 2: "length (?d # dicts) = length (f # files)" using d(2) by simp
  have upt: "[length (heap w) ..< length (heap w) + length (f # files)] =
               length (heap w) # [Suc (length (heap w)) ..< Suc (length (heap w)) + length files]"
    by (simp add: upt_conv_Cons del: upt_Suc)
  have 3: "infos = acc @ map VRef [length (heap w) ..< length (heap w) + length (f # files)]"
    unfolding upt using d(3) info h0 by simp
  have 4: "\<forall>i<length (f # files). \<exists>u. (?d # dicts) ! i = file_information (path_name ((f # files) ! i)) u"
  proof (intro allI impI)
    fix i assume "i < length (f # files)"
    then show "\<exists>u. (?d # dicts) ! i = file_information (path_name ((f # files) ! i)) u"
      using d(4) by (cases i) auto
  qed
  from 1 2 3 4 show ?case by blast
qed

lemma getitem_update_list:
  assumes "lookup h a = Some (OList vs)"
  shows "getitem (h[a := OList vs']) v k = getitem h v k"
proof (cases v)
  case (VRef b)
  show ?thesis
  proof (cases "b = a")
    case True
    with assms VRef show ?thesis
      by (simp add: getitem_def lookup_update_same [OF lookup_Some_less [OF assms]])
  next
    case False
    with VRef show ?thesis by (simp add: getitem_def lookup_update_other)
  qed
qed (simp_all add: getitem_def)

lemma getitem_Inr_ref:
  "getitem h v k = Inr v' \<Longrightarrow> \<exists>b kvs. v = VRef b \<and> lookup h b = Some (ODict kvs) \<and> map_of kvs k = Some v'"
  by (auto simp: getitem_def split: pyval.splits option.splits pyobj.splits)

lemma getitem_append_Inr:
  assumes "getitem h v k = Inr v'"
  shows "getitem (h @ ext) v k = Inr v'"
proof -
  from getitem_Inr_ref [OF assms] obtain b kvs where
    b: "v = VRef b" "lookup h b = Some (ODict kvs)" "map_of kvs k = Some v'" by blast
  have "lookup (h @ ext) b = Some (ODict kvs)"
    using b(2) lookup_append_old [OF lookup_Some_less [OF b(2)]] by simp
  with b show ?thesis by (simp add: getitem_def)
qed

lemma file_infos_list_Some:
  "file_infos_list h job = Some (a, old) \<longleftrightarrow>
     (\<exists>stp pkg. getitem h job ''setup'' = Inr stp \<and>
        getitem h stp ''package'' = Inr pkg \<and>
        getitem h pkg ''fileInformations'' = Inr (VRef a) \<and>
        lookup h a = Some (OList old))"
  by (auto simp: file_infos_list_def split: sum.splits pyval.splits option.splits pyobj.splits)

lemma file_infos_list_update:
  assumes "file_infos_list h job = Some (a, old)"
  shows "file_infos_list (h[a := OList new]) job = Some (a, new)"
proof -
  from assms obtain stp pkg where
    p: "getitem h job ''setup'' = Inr stp" "getitem h stp ''package'' = Inr pkg"
       "getitem h pkg ''fileInformations'' = Inr (VRef a)" "lookup h a = Some (OList old)"
    unfolding file_infos_list_Some by blast
  have "lookup (h[a := OList new]) a = Some (OList new)"
    using lookup_update_same [OF lookup_Some_less [OF p(4)]] .
  with p show ?thesis
    by (simp add: file_infos_list_Some getitem_update_list [OF p(4)])
qed

lemma file_infos_list_append:
  assumes "file_infos_list h job = Some (a, old)"
  shows "file_infos_list (h @ ext) job = Some (a, old)"
proof -
  from assms obtain stp pkg where
    p: "getitem h job ''setup'' = Inr stp" "getitem h stp ''package'' = Inr pkg"
       "getitem h pkg ''fileInformations'' = Inr (VRef a)" "lookup h a = Some (OList old)"
    unfolding file_infos_list_Some by blast
  have "lookup (h @ ext) a = Some (OList old)"
    using p(4) lookup_append_old [OF lookup_Some_less [OF p(4)]] by simp
  with p show ?thesis
    by (simp add: file_infos_list_Some getitem_append_Inr)
qed

lemma append_file_info_wf:
  assumes "file_infos_list (heap w) job = Some (a, old)"
  shows "append_file_info job x w =
           (Inr (), log (ListAppend a x) (w\<lparr>heap := (heap w)[a := OList (old @ [x])]\<rparr>))"
proof -
  from assms obtain stp pkg where
    p: "getitem (heap w) job ''setup'' = Inr stp" "getitem (heap w) stp ''package'' = Inr pkg"
       "getitem (heap w) pkg ''fileInformations'' = Inr (VRef a)"
       "lookup (heap w) a = Some (OList old)"
    unfolding file_infos_list_Some by blast
  then show ?thesis by (simp add: append_file_info_def list_append_def)
qed

lemma append_file_info_not_wf:
  assumes "file_infos_list (heap w) job = None"
  shows "\<exists>x. append_file_info job v w = (Inl x, w) \<and> caught x"
  using assms
  by (auto simp: file_infos_list_def append_file_info_def list_append_def getitem_def caught_def
           split: sum.splits pyval.splits option.splits pyobj.splits)

lemma update_wf:
  "file_infos_list (heap w) job = Some (a, old) \<Longrightarrow>
     update_file_info_in_job job infos w =
       (Inr job, w\<lparr>heap := (heap w)[a := OList (old @ infos)],
                  trace := trace w @ map (ListAppend a) infos\<rparr>)"
proof (induction infos arbitrary: w old)
  case Nil
  from Nil have "lookup (heap w) a = Some (OList old)"
    unfolding file_infos_list_Some by blast
  then have "(heap w)[a := OList old] = heap w"
    by (simp add: lookup_def list_update_same_conv split: if_splits)
  then show ?case by simp
next
  case (Cons x infos)
  let ?w1 = "log (ListAppend a x) (w\<lparr>heap := (heap w)[a := OList (old @ [x])]\<rparr>)"
  have a: "append_file_info job x w = (Inr (), ?w1)"
    using append_file_info_wf [OF Cons.prems] .
  have "file_infos_list (heap ?w1) job = Some (a, old @ [x])"
    using file_infos_list_update [OF Cons.prems] by (simp add: log_def)
  from Cons.IH [OF this] a show ?case by (simp add: log_def)
qed

lemma update_not_wf:
  assumes "file_infos_list (heap w) job = None" and "infos \<noteq> []"
  shows "update_file_info_in_job job infos w = (Inl (SystemExit 1), log (Print missing_message) w)"
proof -
  from assms(2) obtain x xs where i: "infos = x # xs" by (cases infos) auto
  from append_file_info_not_wf [OF assms(1)] obtain ex where
    "append_file_info job x w = (Inl ex, w)" "caught ex" by blast
  with i show ?thesis by simp
qed

lemma lookup_append_new:
  assumes "lookup (h @ ext) b = Some obj" and "\<not> b < length h"
  shows "obj \<in> set ext"
proof -
  from assms have "b < length h + length ext" "obj = ext ! (b - length h)"
    by (auto simp: lookup_def nth_append split: if_splits)
  with assms(2) have "b - length h < length ext" by arith
  then have "ext ! (b - length h) \<in> set ext" by (rule nth_mem)
  with \<open>obj = ext ! (b - length h)\<close> show ?thesis by simp
qed

lemma getitem_append_back:
  assumes "getitem (h @ ext) v k = Inr v'"
    and "\<forall>obj\<in>set ext. \<exists>n u. obj = file_information n u"
    and "k \<notin> {''action'', ''name'', ''url''}"
  shows "getitem h v k = Inr v'"
proof -
  from getitem_Inr_ref [OF assms(1)] obtain b kvs where
    b: "v = VRef b" "lookup (h @ ext) b = Some (ODict kvs)" "map_of kvs k = Some v'" by blast
  have "b < length h"
  proof (rule ccontr)
    assume "\<not> b < length h"
    from lookup_append_new [OF b(2) this] assms(2) obtain n u where
      "ODict kvs = file_information n u" by blast
    then have "kvs = [(''action'', VStr ''DownloadOnly''), (''name'', VStr n), (''url'', VStr u)]"
      by (simp add: file_information_def)
    with assms(3) have "map_of kvs k = None" by simp
    with b(3) show False by simp
  qed
  with b show ?thesis by (simp add: getitem_def lookup_append_old)
qed

lemma file_infos_list_None_append:
  assumes "file_infos_list h job = None"
    and "\<forall>obj\<in>set ext. \<exists>n u. obj = file_information n u"
  shows "file_infos_list (h @ ext) job = None"
proof (rule ccontr)
  assume "file_infos_list (h @ ext) job \<noteq> None"
  then obtain a vs where "file_infos_list (h @ ext) job = Some (a, vs)" by auto
  then obtain stp pkg where
    p: "getitem (h @ ext) job ''setup'' = Inr stp" "getitem (h @ ext) stp ''package'' = Inr pkg"
       "getitem (h @ ext) pkg ''fileInformations'' = Inr (VRef a)"
       "lookup (h @ ext) a = Some (OList vs)"
    unfolding file_infos_list_Some by blast
  have g: "getitem h job ''setup'' = Inr stp" "getitem h stp ''package'' = Inr pkg"
       "getitem h pkg ''fileInformations'' = Inr (VRef a)"
    using getitem_append_back [OF p(1) assms(2)] getitem_append_back [OF p(2) assms(2)]
      getitem_append_back [OF p(3) assms(2)] by simp_all
  have "a < length h"
  proof (rule ccontr)
    assume "\<not> a < length h"
    from lookup_append_new [OF p(4) this] assms(2) obtain n u where
      "OList vs = file_information n u" by blast
    then show False by (simp add: file_information_def)
  qed
  with p(4) have "lookup h a = Some (OList vs)" by (simp add: lookup_append_old)
  with g have "file_infos_list h job = Some (a, vs)" unfolding file_infos_list_Some by blast
  with assms(1) show False by simp
qed

lemma upload_loop_nonempty:
  assumes "upload_loop e files [] w = (Inr infos, w')"
  shows "infos = [] \<longleftrightarrow> files = []"
  using upload_loop_Inr [OF assms] by auto

lemma takeWhile_eq_replicate:
  "takeWhile (\<lambda>c. c = q) xs = replicate (length (takeWhile (\<lambda>c. c = q) xs)) q"
  by (induction xs) auto

lemma in_dquote: "c \<in> set dquote \<longleftrightarrow> c = CHR 0x22"
  by (simp add: dquote_def)

lemma py_strip_dquote:
  "py_strip dquote s =
     rev (dropWhile (\<lambda>c. c = CHR 0x22) (rev (dropWhile (\<lambda>c. c = CHR 0x22) s)))"
  by (simp add: py_strip_def in_dquote)

lemma rev_dropWhile_split:
  "xs = rev (dropWhile P (rev xs)) @ rev (takeWhile P (rev xs))"
  by (metis rev_append rev_rev_ident takeWhile_dropWhile_id)

lemma takeWhile_replicate_ex: "\<exists>m. takeWhile (\<lambda>c. c = q) xs = replicate m q"
  using takeWhile_eq_replicate [of q xs] by blast

lemma py_strip_decomp:
  "\<exists>m n. s = replicate m (CHR 0x22) @ py_strip dquote s @ replicate n (CHR 0x22)"
proof -
  define d where "d = dropWhile (\<lambda>c. c = CHR 0x22) s"
  obtain m where m: "takeWhile (\<lambda>c. c = CHR 0x22) s = replicate m (CHR 0x22)"
    using takeWhile_replicate_ex [of "CHR 0x22" s] ..
  obtain n where n: "takeWhile (\<lambda>c. c = CHR 0x22) (rev d) = replicate n (CHR 0x22)"
    using takeWhile_replicate_ex [of "CHR 0x22" "rev d"] ..
  have u: "py_strip dquote s = rev (dropWhile (\<lambda>c. c = CHR 0x22) (rev d))"
    by (simp add: py_strip_dquote d_def)
  have "s = takeWhile (\<lambda>c. c = CHR 0x22) s @ d" by (simp add: d_def)
  moreover have "d = py_strip dquote s @ rev (takeWhile (\<lambda>c. c = CHR 0x22) (rev d))"
    unfolding u by (rule rev_dropWhile_split)
  ultimately have "s = replicate m (CHR 0x22) @ py_strip dquote s @ replicate n (CHR 0x22)"
    unfolding m n by simp
  then show ?thesis by blast
qed

lemma py_strip_ends:
  assumes "py_strip dquote s \<noteq> []"
  shows "hd (py_strip dquote s) \<noteq> CHR 0x22 \<and> last (py_strip dquote s) \<noteq> CHR 0x22"
proof -
  define d where "d = dropWhile (\<lambda>c. c = CHR 0x22) s"
  define t where "t = rev (takeWhile (\<lambda>c. c = CHR 0x22) (rev d))"
  define u where "u = py_strip dquote s"
  have u: "u = rev (dropWhile (\<lambda>c. c = CHR 0x22) (rev d))"
    by (simp add: py_strip_dquote d_def u_def)
  from assms have une: "u \<noteq> []" by (simp add: u_def)
  with u have ne: "dropWhile (\<lambda>c. c = CHR 0x22) (rev d) \<noteq> []" by simp
  have "last u = hd (dropWhile (\<lambda>c. c = CHR 0x22) (rev d))"
    unfolding u by (rule last_rev)
  moreover have "\<not> hd (dropWhile (\<lambda>c. c = CHR 0x22) (rev d)) = CHR 0x22"
    using ne by (rule hd_dropWhile)
  ultimately have l: "last u \<noteq> CHR 0x22" by simp
  have dut: "d = u @ t" unfolding u t_def by (rule rev_dropWhile_split)
  with une have hd: "hd d = hd u" by simp
  from dut une have "d \<noteq> []" by simp
  then have "dropWhile (\<lambda>c. c = CHR 0x22) s \<noteq> []" by (simp add: d_def)
  then have "\<not> hd (dropWhile (\<lambda>c. c = CHR 0x22) s) = CHR 0x22" by (rule hd_dropWhile)
  then have "hd d \<noteq> CHR 0x22" by (simp add: d_def)
  with hd l show ?thesis by (simp add: u_def)
qed

lemma py_strip_quoted:
  assumes "s = [] \<or> (hd s \<noteq> CHR 0x22 \<and> last s \<noteq> CHR 0x22)"
  shows "py_strip dquote (dquote @ s @ dquote) = s"
proof (cases "s = []")
  case True
  then show ?thesis by (simp add: py_strip_def dquote_def)
next
  case False
  with assms have h: "hd s \<noteq> CHR 0x22" and l: "last s \<noteq> CHR 0x22" by simp_all
  have 1: "dropWhile (\<lambda>c. c = CHR 0x22) (s @ [CHR 0x22]) = s @ [CHR 0x22]"
    unfolding dropWhile_eq_self_iff using False h by simp
  have "hd (rev s) \<noteq> CHR 0x22" unfolding hd_rev by (rule l)
  then have 2: "dropWhile (\<lambda>c. c = CHR 0x22) (rev s) = rev s"
    unfolding dropWhile_eq_self_iff by simp
  show ?thesis by (simp add: py_strip_def dquote_def 1 2)
qed

lemma split_on_nonempty: "split_on c xs \<noteq> []"
  by (induction xs) (auto split: list.splits)

lemma split_on_no_sep: "c \<notin> set xs \<Longrightarrow> split_on c xs = [xs]"
  by (induction xs) auto

lemma split_on_append: "split_on c (xs @ c # ys) = split_on c xs @ split_on c ys"
proof (induction xs)
  case Nil
  then show ?case by simp
next
  case (Cons x xs)
  obtain p ps where "split_on c xs = p # ps"
    using split_on_nonempty [of c xs] by (cases "split_on c xs") auto
  with Cons show ?case by simp
qed

lemma path_name_base:
  assumes "CHR ''/'' \<notin> set base" and "base \<noteq> []" and "base \<noteq> ''.''"
  shows "path_name (dir @ ''/'' @ base) = base" and "path_name base = base"
proof -
  have "path_parts (dir @ ''/'' @ base) =
          filter (\<lambda>p. p \<noteq> [] \<and> p \<noteq> ''.'') (split_on CHR ''/'' dir) @ [base]"
    using assms by (simp add: path_parts_def split_on_append split_on_no_sep)
  then show "path_name (dir @ ''/'' @ base) = base" by (simp add: path_name_def)
  show "path_name base = base"
    using assms by (simp add: path_name_def path_parts_def split_on_no_sep)
qed

subsection \<open>The document of a value when the store grows\<close>

lemma those_Some_all: "those xs = Some ys \<Longrightarrow> x \<in> set xs \<Longrightarrow> \<exists>y. x = Some y"
  by (induction xs arbitrary: ys) (auto split: option.splits)

lemma dump_mono:
  "dump n h v = Some j \<Longrightarrow> dump (n + k) (h @ ext) v = Some j"
proof (induction n arbitrary: v j)
  case 0
  then show ?case by (cases v) simp_all
next
  case (Suc n)
  show ?case
  proof (cases v)
    case (VRef a)
    with Suc.prems obtain obj where obj: "lookup h a = Some obj"
      by (cases "lookup h a") simp_all
    then have l: "lookup (h @ ext) a = Some obj"
      using lookup_append_old [OF lookup_Some_less [OF obj]] by simp
    show ?thesis
    proof (cases obj)
      case (OList vs)
      with Suc.prems VRef obj obtain js where
        js: "those (map (dump n h) vs) = Some js" and j: "j = JArr js"
        by auto
      have m: "map (dump (n + k) (h @ ext)) vs = map (dump n h) vs"
      proof (rule map_cong [OF refl])
        fix x assume x: "x \<in> set vs"
        then have "dump n h x \<in> set (map (dump n h) vs)" by simp
        from those_Some_all [OF js this] obtain y where "dump n h x = Some y" by blast
        with Suc.IH [of x y] show "dump (n + k) (h @ ext) x = dump n h x" by simp
      qed
      have "those (map (dump (n + k) (h @ ext)) vs) = Some js" unfolding m by (rule js)
      with j VRef l OList show ?thesis by simp
    next
      case (ODict kvs)
      let ?f = "\<lambda>n h kv. map_option (Pair (fst kv)) (dump n h (snd kv))"
      from Suc.prems VRef obj ODict obtain js where
        js: "those (map (?f n h) kvs) = Some js" and j: "j = JObj js"
        by auto
      have m: "map (?f (n + k) (h @ ext)) kvs = map (?f n h) kvs"
      proof (rule map_cong [OF refl])
        fix kv assume x: "kv \<in> set kvs"
        then have "?f n h kv \<in> set (map (?f n h) kvs)" by simp
        from those_Some_all [OF js this] obtain y where "?f n h kv = Some y" by blast
        then obtain z where "dump n h (snd kv) = Some z" by auto
        with Suc.IH [of "snd kv" z] show "?f (n + k) (h @ ext) kv = ?f n h kv" by simp
      qed
      have "those (map (?f (n + k) (h @ ext)) kvs) = Some js" unfolding m by (rule js)
      with j VRef l ODict show ?thesis by simp
    qed
  qed (use Suc.prems in simp_all)
qed

lemma to_json_append:
  assumes "to_json h v = Some j"
  shows "to_json (h @ ext) v = Some j"
proof -
  from assms have "dump (Suc (length h)) h v = Some j" by (simp add: to_json_def)
  from dump_mono [OF this, of "length ext" ext] show ?thesis by (simp add: to_json_def)
qed

subsection \<open>Evaluation of the examples\<close>

lemmas example_defs =
  example_env_def ok_response_def empty_world_def example_template_def

lemma generated_url_eq:
  assumes "upload_file_and_generate_file_info e file w = (Inr info, w')"
  shows "\<exists>r w1. upload_file e file w = (Inr r, w1) \<and>
           dict_items (heap w') info =
             Some [(''action'', VStr ''DownloadOnly''), (''name'', VStr (path_name file)),
                   (''url'', VStr (py_strip dquote (resp_text r)))]"
proof -
  from gen_info_Inr [OF assms] obtain r w1 where
    u: "upload_file e file w = (Inr r, w1)" and i: "info = VRef (length (heap w))" and
    w': "w' = w1\<lparr>heap := heap w @ [file_information (path_name file) (py_strip dquote (resp_text r))]\<rparr>"
    by blast
  have "dict_items (heap w') info =
          Some [(''action'', VStr ''DownloadOnly''), (''name'', VStr (path_name file)),
                (''url'', VStr (py_strip dquote (resp_text r)))]"
    by (simp add: i w' dict_items_def lookup_def file_information_def)
  with u show ?thesis by blast
qed

lemmas run_defs =
  upload_file_and_generate_file_info_def upload_file_def alloc_def log_def MAX_FILE_SIZE_def

lemma example_upload:
  "sz \<le> 4194304 \<Longrightarrow>
   upload_file_and_generate_file_info (example_env sz body t) file empty_world =
     (Inr (VRef 0),
      \<lparr>heap = [file_information (path_name file) (py_strip dquote body)],
       trace = [Put file, Print (hook_line (ok_response body))]\<rparr>)"
  by (simp add: run_defs example_defs)

lemma example_upload_file:
  "upload_file (example_env sz body t) file empty_world =
     (Inr (ok_response body), \<lparr>heap = [], trace = [Put file, Print (hook_line (ok_response body))]\<rparr>)"
  by (simp add: run_defs example_defs)

lemma upload_loop_append:
  "upload_loop e (pre @ rest) acc w =
     (case upload_loop e pre acc w of
        (Inl x, w') \<Rightarrow> (Inl x, w')
      | (Inr infos, w') \<Rightarrow> upload_loop e rest infos w')"
proof (induction pre arbitrary: acc w)
  case Nil
  then show ?case by simp
next
  case (Cons f pre)
  show ?case
  proof (cases "upload_file_and_generate_file_info e f w")
    case (Pair r0 w0)
    then show ?thesis using Cons.IH by (cases r0) simp_all
  qed
qed

lemma upload_file_not_exit:
  "upload_file e f w = (r, w') \<Longrightarrow> r \<noteq> Inl (SystemExit n)"
  by (auto simp: upload_file_def split: if_splits option.splits)

lemma upload_file_put:
  "open_rb e (trace w) f \<Longrightarrow> Put f \<in> set (trace (snd (upload_file e f w)))"
  by (simp add: upload_file_def log_def split: option.splits)

lemma example_assembly:
  "assemble_json (example_env 10 (dquote @ ''https://x/abc'' @ dquote) example_template)
       example_template [''report.txt''] =
     Some (JObj [(''setup'', JObj [(''package'', JObj [(''fileInformations'',
       JArr [JObj [(''action'', JStr ''DownloadOnly''), (''name'', JStr ''report.txt''),
                   (''url'', JStr ''https://x/abc'')]])])])])"
  by (simp add: assemble_json_def add_file_info_to_job_def run_defs example_defs
        append_file_info_def getitem_def list_append_def lookup_def to_json_def
        file_information_def path_name_def path_parts_def py_strip_def dquote_def)

subsection \<open>What an assembly does\<close>

lemma add_wf:
  assumes wf: "file_infos_list (heap w) job = Some (a, old)"
    and up: "upload_loop e files [] w = (Inr infos, w1)"
  shows "add_file_info_to_job e job files w =
           (Inr job, w1\<lparr>heap := (heap w1)[a := OList (old @ infos)],
                        trace := trace w1 @ map (ListAppend a) infos\<rparr>)"
proof -
  from upload_loop_Inr [OF up] obtain dicts where "heap w1 = heap w @ dicts" by blast
  with file_infos_list_append [OF wf] have wf1: "file_infos_list (heap w1) job = Some (a, old)"
    by simp
  show ?thesis
  proof (cases "infos = []")
    case True
    from update_wf [OF wf1, of "[]"] have
      "(Inr job, w1) = (Inr job, w1\<lparr>heap := (heap w1)[a := OList (old @ [])],
                        trace := trace w1 @ map (ListAppend a) []\<rparr>)"
      by simp
    with True up show ?thesis by (simp add: add_file_info_to_job_def)
  next
    case False
    with up update_wf [OF wf1, of infos] show ?thesis by (simp add: add_file_info_to_job_def)
  qed
qed

lemma add_Inr_upload:
  assumes "add_file_info_to_job e job files w = (Inr job', w')"
  shows "\<exists>infos w1. upload_loop e files [] w = (Inr infos, w1)"
proof -
  obtain r1 w1 where u: "upload_loop e files [] w = (r1, w1)" by (cases "upload_loop e files [] w")
  with assms show ?thesis by (cases r1) (auto simp: add_file_info_to_job_def)
qed

lemma add_not_wf:
  assumes nwf: "file_infos_list (heap w) job = None" and ne: "files \<noteq> []"
    and up: "upload_loop e files [] w = (Inr infos, w1)"
  shows "add_file_info_to_job e job files w =
           (Inl (SystemExit 1), w1\<lparr>trace := trace w1 @ [Print missing_message]\<rparr>)"
proof -
  from upload_loop_effect [OF up] obtain ext where
    h: "heap w1 = heap w @ ext" and d: "\<forall>obj\<in>set ext. \<exists>n u. obj = file_information n u"
    by blast
  from file_infos_list_None_append [OF nwf d] h have n1: "file_infos_list (heap w1) job = None"
    by simp
  from upload_loop_nonempty [OF up] ne have i: "infos \<noteq> []" by simp
  from update_not_wf [OF n1 i] up i show ?thesis
    by (simp add: add_file_info_to_job_def log_def)
qed

lemma add_Inr_wf:
  assumes "add_file_info_to_job e job files w = (Inr job', w')" and "files \<noteq> []"
  shows "\<exists>a old. file_infos_list (heap w) job = Some (a, old)"
proof (rule ccontr)
  assume "\<not> (\<exists>a old. file_infos_list (heap w) job = Some (a, old))"
  then have nwf: "file_infos_list (heap w) job = None"
    by (cases "file_infos_list (heap w) job") auto
  from add_Inr_upload [OF assms(1)] obtain infos w1 where
    "upload_loop e files [] w = (Inr infos, w1)" by blast
  from add_not_wf [OF nwf assms(2) this] assms(1) show False by simp
qed

lemma add_Inl_upload:
  assumes "upload_loop e files [] w = (Inl x, w1)"
  shows "add_file_info_to_job e job files w = (Inl x, w1)"
  using assms by (simp add: add_file_info_to_job_def)

lemma entry_name_new:
  assumes "a < length h" and "i < length dicts"
    and "dicts ! i = file_information n u"
  shows "entry_name ((h @ dicts)[a := obj]) (VRef (length h + i)) = Some (VStr n)"
proof -
  from assms(1) have "length h + i \<noteq> a" by simp
  then have "lookup ((h @ dicts)[a := obj]) (length h + i) = lookup (h @ dicts) (length h + i)"
    by (rule lookup_update_other)
  also have "\<dots> = Some (dicts ! i)" using assms(2) by (simp add: lookup_def nth_append)
  finally show ?thesis using assms(3)
    by (simp add: entry_name_def dict_items_def file_information_def)
qed

lemma update_no_put:
  assumes "update_file_info_in_job job infos w = (r, w')"
  shows "\<exists>evs. trace w' = trace w @ evs \<and> (\<forall>ev\<in>set evs. \<not> is_put ev)"
proof (cases "file_infos_list (heap w) job")
  case None
  show ?thesis
  proof (cases "infos = []")
    case True
    with assms show ?thesis by simp
  next
    case False
    from update_not_wf [OF None False] assms show ?thesis
      by (auto simp: log_def is_put_def)
  qed
next
  case (Some p)
  obtain a old where "p = (a, old)" by (cases p)
  with Some update_wf [of w job a old infos] assms show ?thesis
    by (auto simp: is_put_def)
qed

subsection \<open>No submission without a written file\<close>

text \<open>
  The assembly posts nothing, and with an output path \<open>submit\<close> always ends in an
  exception before it reaches \<open>submit_job\<close>.
\<close>

lemma upload_file_posts:
  "filter is_post (trace (snd (upload_file e f w))) = filter is_post (trace w)"
  by (simp add: upload_file_def log_def is_post_def split: option.splits)

lemma gen_info_posts:
  "filter is_post (trace (snd (upload_file_and_generate_file_info e f w))) =
     filter is_post (trace w)"
proof (cases "stat_size e (trace w) f")
  case None
  then show ?thesis by (simp add: upload_file_and_generate_file_info_def)
next
  case (Some sz)
  obtain r0 w1 where u: "upload_file e f w = (r0, w1)" by (cases "upload_file e f w")
  from upload_file_posts [of e f w] u have "filter is_post (trace w1) = filter is_post (trace w)"
    by simp
  with Some u show ?thesis
    by (cases r0)
      (simp_all add: upload_file_and_generate_file_info_def log_def is_post_def alloc_def)
qed

lemma upload_loop_posts:
  "filter is_post (trace (snd (upload_loop e files acc w))) = filter is_post (trace w)"
proof (induction files arbitrary: acc w)
  case Nil
  then show ?case by simp
next
  case (Cons f files)
  obtain r0 w0 where g: "upload_file_and_generate_file_info e f w = (r0, w0)"
    by (cases "upload_file_and_generate_file_info e f w")
  from gen_info_posts [of e f w] g have p: "filter is_post (trace w0) = filter is_post (trace w)"
    by simp
  show ?case
  proof (cases r0)
    case (Inl x)
    with g p show ?thesis by simp
  next
    case (Inr info)
    with g p Cons.IH [of "acc @ [info]" w0] show ?thesis by simp
  qed
qed

lemma update_posts:
  "filter is_post (trace (snd (update_file_info_in_job job infos w))) = filter is_post (trace w)"
proof (cases "file_infos_list (heap w) job")
  case None
  show ?thesis
  proof (cases "infos = []")
    case True
    then show ?thesis by simp
  next
    case False
    from update_not_wf [OF None False] show ?thesis by (simp add: log_def is_post_def)
  qed
next
  case (Some p)
  obtain a old where "p = (a, old)" by (cases p)
  with Some update_wf [of w job a old infos] show ?thesis
    by (simp add: is_post_def filter_empty_conv)
qed

lemma add_posts:
  "filter is_post (trace (snd (add_file_info_to_job e job files w))) = filter is_post (trace w)"
proof -
  obtain r1 w1 where up: "upload_loop e files [] w = (r1, w1)"
    by (cases "upload_loop e files [] w")
  from upload_loop_posts [of e files "[]" w] up
  have p: "filter is_post (trace w1) = filter is_post (trace w)" by simp
  show ?thesis
  proof (cases r1)
    case (Inl x)
    with up p show ?thesis by (simp add: add_file_info_to_job_def)
  next
    case (Inr infos)
    with up p update_posts [of job infos w1] show ?thesis
      by (simp add: add_file_info_to_job_def)
  qed
qed

lemma submit_output_path_raises:
  assumes "truthy output_job_path"
  shows "(\<exists>x. fst (submit e job_path output_job_path files w) = Inl x) \<and>
         filter is_post (trace (snd (submit e job_path output_job_path files w))) =
           filter is_post (trace w)"
proof (cases "read_job e (trace w) job_path")
  case (Inl x)
  then show ?thesis by (simp add: submit_def)
next
  case (Inr j)
  obtain job0 h0 where l: "load j (heap w) = (job0, h0)" by (cases "load j (heap w)")
  obtain r1 w1 where a: "add_file_info_to_job e job0 files (w\<lparr>heap := h0\<rparr>) = (r1, w1)"
    by (cases "add_file_info_to_job e job0 files (w\<lparr>heap := h0\<rparr>)")
  from add_posts [of e job0 files "w\<lparr>heap := h0\<rparr>"] a
  have p: "filter is_post (trace w1) = filter is_post (trace w)" by simp
  show ?thesis
  proof (cases r1)
    case (Inl x)
    with Inr l a p show ?thesis by (simp add: submit_def)
  next
    case (Inr job)
    with \<open>read_job e (trace w) job_path = Inr j\<close> l a p assms show ?thesis
      by (simp add: submit_def write_output_def)
  qed
qed

subsection \<open>More evaluations\<close>

lemmas eval_defs =
  add_file_info_to_job_def run_defs example_defs append_file_info_def getitem_def
  list_append_def lookup_def file_information_def path_name_def path_parts_def py_strip_def
  dquote_def hook_line_def str_nat.simps digit_char_def

lemma example_loaded:
  "example_job = VRef 3"
  "example_world =
     \<lparr>heap = [OList [], ODict [(''fileInformations'', VRef 0)], ODict [(''package'', VRef 1)],
              ODict [(''setup'', VRef 2)]],
      trace = []\<rparr>"
  by (simp_all add: example_job_def example_world_def example_template_def)

lemma example_wf: "file_infos_list (heap example_world) example_job = Some (0, [])"
  by (simp add: example_loaded file_infos_list_def getitem_def lookup_def)

lemma example_two_uploads:
  "upload_loop two_files_env [''a.txt'', ''dir/b.txt''] [] example_world =
     (Inr [VRef 4, VRef 5],
      \<lparr>heap = [OList [], ODict [(''fileInformations'', VRef 0)], ODict [(''package'', VRef 1)],
              ODict [(''setup'', VRef 2)],
              ODict [(''action'', VStr ''DownloadOnly''), (''name'', VStr ''a.txt''),
                     (''url'', VStr ''u'')],
              ODict [(''action'', VStr ''DownloadOnly''), (''name'', VStr ''b.txt''),
                     (''url'', VStr ''u'')]],
       trace = [Put ''a.txt'', Print ''200 OK https://msrd.test/'',
                Put ''dir/b.txt'', Print ''200 OK https://msrd.test/'']\<rparr>)"
  by (simp add: example_loaded two_files_env_def eval_defs)

lemma example_two_files:
  "add_file_info_to_job two_files_env example_job [''a.txt'', ''dir/b.txt''] example_world =
     (Inr (VRef 3),
      \<lparr>heap = [OList [VRef 4, VRef 5], ODict [(''fileInformations'', VRef 0)],
              ODict [(''package'', VRef 1)], ODict [(''setup'', VRef 2)],
              ODict [(''action'', VStr ''DownloadOnly''), (''name'', VStr ''a.txt''),
                     (''url'', VStr ''u'')],
              ODict [(''action'', VStr ''DownloadOnly''), (''name'', VStr ''b.txt''),
                     (''url'', VStr ''u'')]],
       trace = [Put ''a.txt'', Print ''200 OK https://msrd.test/'',
                Put ''dir/b.txt'', Print ''200 OK https://msrd.test/'',
                ListAppend 0 (VRef 4), ListAppend 0 (VRef 5)]\<rparr>)"
  by (simp add: example_loaded two_files_env_def eval_defs)

lemma flaky_uploads:
  "upload_loop flaky_env [''a.txt'', ''b.txt''] [] example_world =
     (Inl RequestException,
      \<lparr>heap = [OList [], ODict [(''fileInformations'', VRef 0)], ODict [(''package'', VRef 1)],
              ODict [(''setup'', VRef 2)],
              ODict [(''action'', VStr ''DownloadOnly''), (''name'', VStr ''a.txt''),
                     (''url'', VStr ''u'')]],
       trace = [Put ''a.txt'', Print ''200 OK https://msrd.test/'', Put ''b.txt'']\<rparr>)"
  by (simp add: example_loaded flaky_env_def eval_defs)

lemma bare_not_wf: "file_infos_list (heap bare_world) (VRef 0) = None"
  by (simp add: bare_world_def file_infos_list_def getitem_def lookup_def)

lemma bare_upload:
  "upload_loop two_files_env [''a.txt''] [] bare_world =
     (Inr [VRef 1],
      \<lparr>heap = [ODict [], file_information ''a.txt'' ''u''],
       trace = [Put ''a.txt'', Print ''200 OK https://msrd.test/'']\<rparr>)"
  by (simp add: bare_world_def two_files_env_def eval_defs)

section \<open>The claims\<close>

text \<open>
  C6. For every job document, \<open>add_file_info_to_job\<close> with an empty file list returns
  the very value it was given and leaves the world as it was: the store is unchanged
  (so the document read back is equal to the input), the trace gains no event (no
  upload, no append, nothing printed), and the result is not an error. Nothing is
  assumed about the document, so this holds whether or not it has the
  \<open>setup.package.fileInformations\<close> structure.
\<close>

theorem empty_file_list_unchanged:
  "add_file_info_to_job e job [] w = (Inr job, w)"
  by (simp add: add_file_info_to_job_def)

theorem empty_file_list_unchanged_witness:
  "add_file_info_to_job (example_env 10 [] JNull) VNone [] empty_world = (Inr VNone, empty_world)"
  by (rule empty_file_list_unchanged)




text \<open>
  C1 (as amended). The \<open>url\<close> stored in the file information of an uploaded file is
  the response text with every leading and every trailing double quote removed
  (\<open>str.strip\<close>): the text is some quotes, the url, some quotes, and a url that is not
  empty neither starts nor ends with a quote. When the text is a string between one
  pair of quotes, and the string is empty or neither starts nor ends with a quote, the
  url is that string: one leading and one trailing quote are removed. The instance
  after the theorem runs the responses \<open>"abc123"\<close> and \<open>""\<close>.
\<close>

theorem url_strips_all_quotes:
  assumes "upload_file_and_generate_file_info e file w = (Inr info, w')"
  shows "\<exists>r w1 u. upload_file e file w = (Inr r, w1) \<and>
           generated_url e file w = Some u \<and> u = py_strip dquote (resp_text r) \<and>
           (\<exists>m n. resp_text r = replicate m (CHR 0x22) @ u @ replicate n (CHR 0x22)) \<and>
           (u \<noteq> [] \<longrightarrow> hd u \<noteq> CHR 0x22 \<and> last u \<noteq> CHR 0x22) \<and>
           (\<forall>s. resp_text r = dquote @ s @ dquote \<and>
                 (s = [] \<or> hd s \<noteq> CHR 0x22 \<and> last s \<noteq> CHR 0x22) \<longrightarrow> u = s)"
proof -
  from generated_url_eq [OF assms] obtain r w1 where
    u: "upload_file e file w = (Inr r, w1)" and
    d: "dict_items (heap w') info =
          Some [(''action'', VStr ''DownloadOnly''), (''name'', VStr (path_name file)),
                (''url'', VStr (py_strip dquote (resp_text r)))]"
    by blast
  let ?u = "py_strip dquote (resp_text r)"
  have g: "generated_url e file w = Some ?u"
    by (simp add: generated_url_def assms d)
  have q: "\<forall>s. resp_text r = dquote @ s @ dquote \<and>
                 (s = [] \<or> hd s \<noteq> CHR 0x22 \<and> last s \<noteq> CHR 0x22) \<longrightarrow> ?u = s"
    using py_strip_quoted by auto
  from u g q py_strip_decomp [of "resp_text r"] py_strip_ends [of "resp_text r"]
  show ?thesis by blast
qed

theorem url_strips_all_quotes_witness:
  "generated_url (example_env 10 (dquote @ ''abc123'' @ dquote) JNull) ''f'' empty_world
     = Some ''abc123'' \<and>
   generated_url (example_env 10 (dquote @ [] @ dquote) JNull) ''f'' empty_world = Some []"
proof -
  have a: "generated_url (example_env 10 (dquote @ s @ dquote) JNull) ''f'' empty_world = Some s"
    if s: "s = [] \<or> hd s \<noteq> CHR 0x22 \<and> last s \<noteq> CHR 0x22" for s
  proof -
    let ?e = "example_env 10 (dquote @ s @ dquote) JNull"
    have run: "upload_file_and_generate_file_info ?e ''f'' empty_world =
       (Inr (VRef 0),
        \<lparr>heap = [file_information (path_name ''f'') (py_strip dquote (dquote @ s @ dquote))],
         trace = [Put ''f'', Print (hook_line (ok_response (dquote @ s @ dquote)))]\<rparr>)"
      by (rule example_upload) simp
    from url_strips_all_quotes [OF run] obtain r w1 u where
      1: "upload_file ?e ''f'' empty_world = (Inr r, w1)" and
      2: "generated_url ?e ''f'' empty_world = Some u" and
      3: "\<forall>s'. resp_text r = dquote @ s' @ dquote \<and>
                 (s' = [] \<or> hd s' \<noteq> CHR 0x22 \<and> last s' \<noteq> CHR 0x22) \<longrightarrow> u = s'"
      by blast
    from 1 have "r = ok_response (dquote @ s @ dquote)" by (simp add: example_upload_file)
    then have "resp_text r = dquote @ s @ dquote" by (simp add: ok_response_def)
    with 3 s have "u = s" by blast
    with 2 show ?thesis by simp
  qed
  have "generated_url (example_env 10 (dquote @ ''abc123'' @ dquote) JNull) ''f'' empty_world
     = Some ''abc123''" by (rule a) simp
  moreover have "generated_url (example_env 10 (dquote @ [] @ dquote) JNull) ''f'' empty_world = Some []"
    by (rule a) simp
  ultimately show ?thesis by simp
qed

text \<open>
  C1 as stated fails: for the response text \<open>""a""\<close> the stored url is \<open>a\<close>, and
  removing exactly one quote at each end would give \<open>"a"\<close>.
\<close>

theorem url_strip_counterexample:
  "generated_url (example_env 10 (dquote @ dquote @ ''a'' @ dquote @ dquote) JNull) ''f'' empty_world
     = Some ''a'' \<and>
   spec_strip_one_quote (dquote @ dquote @ ''a'' @ dquote @ dquote) = dquote @ ''a'' @ dquote \<and>
   ''a'' \<noteq> dquote @ ''a'' @ dquote"
  by (simp add: generated_url_def run_defs example_defs dict_items_def lookup_def
        file_information_def py_strip_def dquote_def spec_strip_one_quote_def)

text \<open>
  C4. The limit is 4,194,304 bytes. For a file whose size is above it,
  \<open>upload_file_and_generate_file_info\<close> ends the run with \<open>exit(1)\<close>; all it does
  before is print one line, which names the file and its size, so the store is
  untouched and no upload request is made for the file. Inside a run of
  \<open>add_file_info_to_job\<close>, where the files before it have been uploaded, the whole
  run ends there with that exit: no later file is looked at and nothing is appended.
  A file of at most 4,194,304 bytes (so one of exactly that size) is not rejected:
  the call goes on to \<open>upload_file\<close>, its outcome is that of the upload, never the
  size exit, and when the file can be opened the upload request is made.
\<close>

theorem oversize_file_aborts:
  assumes "stat_size e (trace w) file = Some sz"
  shows "MAX_FILE_SIZE = 4194304 \<and>
    (4194304 < sz \<longrightarrow>
       upload_file_and_generate_file_info e file w =
         (Inl (SystemExit 1), w\<lparr>trace := trace w @ [Print (size_error file sz)]\<rparr>) \<and>
       size_error file sz =
         ''ERROR: file '' @ dquote @ file @ dquote @ '' has byte size '' @ str_nat sz @
         '', which exceeds limit of 4mb'' \<and>
       (\<forall>job pre post w0 infos. upload_loop e pre [] w0 = (Inr infos, w) \<longrightarrow>
          add_file_info_to_job e job (pre @ file # post) w0 =
            (Inl (SystemExit 1), w\<lparr>trace := trace w @ [Print (size_error file sz)]\<rparr>))) \<and>
    (sz \<le> 4194304 \<longrightarrow>
       upload_file_and_generate_file_info e file w =
         (case upload_file e file w of
            (Inl x, w') \<Rightarrow> (Inl x, w')
          | (Inr r, w') \<Rightarrow>
              (Inr (VRef (length (heap w'))),
               w'\<lparr>heap := heap w' @
                   [file_information (path_name file) (py_strip dquote (resp_text r))]\<rparr>)) \<and>
       fst (upload_file_and_generate_file_info e file w) \<noteq> Inl (SystemExit 1) \<and>
       (open_rb e (trace w) file \<longrightarrow>
          Put file \<in> set (trace (snd (upload_file_and_generate_file_info e file w)))))"
proof (intro conjI impI allI)
  show "MAX_FILE_SIZE = 4194304" by (simp add: MAX_FILE_SIZE_def)
next
  assume "4194304 < sz"
  with assms show "upload_file_and_generate_file_info e file w =
         (Inl (SystemExit 1), w\<lparr>trace := trace w @ [Print (size_error file sz)]\<rparr>)"
    by (simp add: upload_file_and_generate_file_info_def MAX_FILE_SIZE_def log_def)
next
  show "size_error file sz =
         ''ERROR: file '' @ dquote @ file @ dquote @ '' has byte size '' @ str_nat sz @
         '', which exceeds limit of 4mb''"
    by (simp add: size_error_def)
next
  fix job pre post w0 infos
  assume big: "4194304 < sz" and pre: "upload_loop e pre [] w0 = (Inr infos, w)"
  from assms big have g: "upload_file_and_generate_file_info e file w =
         (Inl (SystemExit 1), w\<lparr>trace := trace w @ [Print (size_error file sz)]\<rparr>)"
    by (simp add: upload_file_and_generate_file_info_def MAX_FILE_SIZE_def log_def)
  have "upload_loop e (pre @ file # post) [] w0 =
          (Inl (SystemExit 1), w\<lparr>trace := trace w @ [Print (size_error file sz)]\<rparr>)"
    by (simp add: upload_loop_append pre g)
  then show "add_file_info_to_job e job (pre @ file # post) w0 =
            (Inl (SystemExit 1), w\<lparr>trace := trace w @ [Print (size_error file sz)]\<rparr>)"
    by (simp add: add_file_info_to_job_def)
next
  assume small: "sz \<le> 4194304"
  obtain r0 w1 where u: "upload_file e file w = (r0, w1)" by (cases "upload_file e file w")
  from assms small u show eq: "upload_file_and_generate_file_info e file w =
         (case upload_file e file w of
            (Inl x, w') \<Rightarrow> (Inl x, w')
          | (Inr r, w') \<Rightarrow>
              (Inr (VRef (length (heap w'))),
               w'\<lparr>heap := heap w' @
                   [file_information (path_name file) (py_strip dquote (resp_text r))]\<rparr>))"
    by (cases r0) (simp_all add: upload_file_and_generate_file_info_def MAX_FILE_SIZE_def alloc_def)
  from upload_file_not_exit [OF u] eq u
  show "fst (upload_file_and_generate_file_info e file w) \<noteq> Inl (SystemExit 1)"
    by (cases r0) auto
  assume "open_rb e (trace w) file"
  from upload_file_put [OF this] eq u
  show "Put file \<in> set (trace (snd (upload_file_and_generate_file_info e file w)))"
    by (cases r0) auto
qed

theorem oversize_file_aborts_witness:
  "upload_file_and_generate_file_info (example_env 4194305 [] JNull) ''big.bin'' empty_world =
     (Inl (SystemExit 1),
      \<lparr>heap = [],
       trace = [Print (''ERROR: file '' @ dquote @ ''big.bin'' @ dquote @
                  '' has byte size 4194305, which exceeds limit of 4mb'')]\<rparr>) \<and>
   upload_file_and_generate_file_info (example_env 4194304 (dquote @ ''u'' @ dquote) JNull)
       ''fits.bin'' empty_world =
     (Inr (VRef 0),
      \<lparr>heap = [file_information ''fits.bin'' ''u''],
       trace = [Put ''fits.bin'', Print ''200 OK https://msrd.test/'']\<rparr>)"
proof -
  have s1: "stat_size (example_env 4194305 [] JNull) (trace empty_world) ''big.bin'' = Some 4194305"
    by (simp add: example_defs)
  have n: "str_nat 4194305 = ''4194305''"
    by (simp add: str_nat.simps digit_char_def)
  have s2: "stat_size (example_env 4194304 (dquote @ ''u'' @ dquote) JNull) (trace empty_world)
              ''fits.bin'' = Some 4194304"
    by (simp add: example_defs)
  have p: "path_name ''fits.bin'' = ''fits.bin''"
    by (simp add: path_name_def path_parts_def)
  from oversize_file_aborts [OF s1, THEN conjunct2, THEN conjunct1] have
    "upload_file_and_generate_file_info (example_env 4194305 [] JNull) ''big.bin'' empty_world =
       (Inl (SystemExit 1),
        empty_world\<lparr>trace := trace empty_world @ [Print (size_error ''big.bin'' 4194305)]\<rparr>)"
    by simp
  then have a: "upload_file_and_generate_file_info (example_env 4194305 [] JNull) ''big.bin''
       empty_world =
     (Inl (SystemExit 1),
      \<lparr>heap = [],
       trace = [Print (''ERROR: file '' @ dquote @ ''big.bin'' @ dquote @
                  '' has byte size 4194305, which exceeds limit of 4mb'')]\<rparr>)"
    by (simp add: size_error_def n empty_world_def)
  from oversize_file_aborts [OF s2, THEN conjunct2, THEN conjunct2] have
    "upload_file_and_generate_file_info (example_env 4194304 (dquote @ ''u'' @ dquote) JNull)
       ''fits.bin'' empty_world =
     (case upload_file (example_env 4194304 (dquote @ ''u'' @ dquote) JNull) ''fits.bin'' empty_world of
            (Inl x, w') \<Rightarrow> (Inl x, w')
          | (Inr r, w') \<Rightarrow>
              (Inr (VRef (length (heap w'))),
               w'\<lparr>heap := heap w' @
                   [file_information (path_name ''fits.bin'') (py_strip dquote (resp_text r))]\<rparr>))"
    by simp
  then have b: "upload_file_and_generate_file_info
       (example_env 4194304 (dquote @ ''u'' @ dquote) JNull) ''fits.bin'' empty_world =
     (Inr (VRef 0),
      \<lparr>heap = [file_information ''fits.bin'' ''u''],
       trace = [Put ''fits.bin'', Print ''200 OK https://msrd.test/'']\<rparr>)"
    unfolding example_upload_file
    by (simp add: p ok_response_def py_strip_def dquote_def hook_line_def str_nat.simps
          digit_char_def)
  from a b show ?thesis by (rule conjI)
qed

text \<open>
  C5. The file information built for a file is a dict of exactly three entries, in the
  order of the source: \<open>action\<close> is the literal \<open>DownloadOnly\<close>, \<open>name\<close> is
  \<open>Path(file).name\<close>, and \<open>url\<close> is the stripped text of the upload response. The
  name is the base name: the part after the last slash (the path itself when it has no
  slash), for a last part that is neither empty nor a dot. For the template
  \<open>{"setup":{"package":{"fileInformations":[]}}}\<close>, the file list \<open>["report.txt"]\<close>
  and an upload that answers \<open>"https://x/abc"\<close>, assembly yields the document of the
  claim.
\<close>

theorem file_information_fields:
  "(upload_file_and_generate_file_info e file w = (Inr info, w') \<longrightarrow>
      (\<exists>r w1. upload_file e file w = (Inr r, w1) \<and>
         dict_items (heap w') info =
           Some [(''action'', VStr ''DownloadOnly''),
                 (''name'', VStr (path_name file)),
                 (''url'', VStr (py_strip dquote (resp_text r)))])) \<and>
   (CHR ''/'' \<notin> set base \<and> base \<noteq> [] \<and> base \<noteq> ''.'' \<longrightarrow>
      path_name (dir @ ''/'' @ base) = base \<and> path_name base = base) \<and>
   assemble_json (example_env 10 (dquote @ ''https://x/abc'' @ dquote) example_template)
       example_template [''report.txt''] =
     Some (JObj [(''setup'', JObj [(''package'', JObj [(''fileInformations'',
       JArr [JObj [(''action'', JStr ''DownloadOnly''), (''name'', JStr ''report.txt''),
                   (''url'', JStr ''https://x/abc'')]])])])])"
  using generated_url_eq [of e "file" w info w'] path_name_base(1) [of base dir] path_name_base(2) [of base] example_assembly
  by blast

theorem file_information_fields_witness:
  "dict_items
     (heap (snd (upload_file_and_generate_file_info
        (example_env 10 (dquote @ ''https://x/abc'' @ dquote) JNull) ''data/report.txt''
        empty_world)))
     (VRef 0) =
   Some [(''action'', VStr ''DownloadOnly''), (''name'', VStr ''report.txt''),
         (''url'', VStr ''https://x/abc'')]"
proof -
  let ?e = "example_env 10 (dquote @ ''https://x/abc'' @ dquote) JNull"
  let ?w = "\<lparr>heap = [file_information (path_name ''data/report.txt'')
                         (py_strip dquote (dquote @ ''https://x/abc'' @ dquote))],
             trace = [Put ''data/report.txt'',
                      Print (hook_line (ok_response (dquote @ ''https://x/abc'' @ dquote)))]\<rparr>"
  have run: "upload_file_and_generate_file_info ?e ''data/report.txt'' empty_world =
               (Inr (VRef 0), ?w)"
    by (rule example_upload) simp
  have base: "CHR ''/'' \<notin> set ''report.txt'' \<and> ''report.txt'' \<noteq> [] \<and> ''report.txt'' \<noteq> ''.''"
    by simp
  from file_information_fields [of ?e "''data/report.txt''" empty_world "VRef 0" ?w
        "''report.txt''" "''data''"] run base
  obtain r w1 where
    u: "upload_file ?e ''data/report.txt'' empty_world = (Inr r, w1)" and
    d: "dict_items (heap ?w) (VRef 0) =
          Some [(''action'', VStr ''DownloadOnly''),
                (''name'', VStr (path_name ''data/report.txt'')),
                (''url'', VStr (py_strip dquote (resp_text r)))]" and
    n: "path_name (''data'' @ ''/'' @ ''report.txt'') = ''report.txt''"
    by blast
  from u have "r = ok_response (dquote @ ''https://x/abc'' @ dquote)"
    by (simp add: example_upload_file)
  then have "py_strip dquote (resp_text r) = ''https://x/abc''"
    by (simp add: ok_response_def py_strip_def dquote_def)
  moreover from n have "path_name ''data/report.txt'' = ''report.txt''" by simp
  ultimately show ?thesis using d by (simp only: run snd_conv)
qed

text \<open>
  C2 (as amended). For a job whose path \<open>setup.package.fileInformations\<close> does not
  lead to a list, and a file list that is not empty, \<open>add_file_info_to_job\<close> fails.
  No object of the store is changed (new ones are only added behind them), the document
  of the job reads back as before, and nothing is appended. All files are uploaded first: when every file passes the size check and
  uploads, the run ends with \<open>exit(1)\<close> and the message about the missing data is the
  last event, so no upload follows it; when a file fails first, the run ends with that
  file's failure, in the world the upload loop left.
\<close>

theorem malformed_template_fails:
  assumes nwf: "file_infos_list (heap w) job = None" and ne: "files \<noteq> []"
  shows "\<exists>x w'. add_file_info_to_job e job files w = (Inl x, w') \<and>
           (\<exists>ext. heap w' = heap w @ ext) \<and>
           (\<forall>j. to_json (heap w) job = Some j \<longrightarrow> to_json (heap w') job = Some j) \<and>
           (\<exists>evs. trace w' = trace w @ evs \<and> (\<forall>ev\<in>set evs. \<not> is_append ev)) \<and>
           (\<forall>infos w1. upload_loop e files [] w = (Inr infos, w1) \<longrightarrow>
              x = SystemExit 1 \<and> w' = w1\<lparr>trace := trace w1 @ [Print missing_message]\<rparr>) \<and>
           (\<forall>x1 w1. upload_loop e files [] w = (Inl x1, w1) \<longrightarrow> x = x1 \<and> w' = w1)"
proof -
  obtain r1 w1 where up: "upload_loop e files [] w = (r1, w1)"
    by (cases "upload_loop e files [] w")
  from upload_loop_effect [OF up] obtain ext us where
    h: "heap w1 = heap w @ ext" and t: "trace w1 = trace w @ us" and
    na: "\<forall>ev\<in>set us. \<not> is_append ev"
    by blast
  show ?thesis
  proof (cases r1)
    case (Inl x1)
    with up have r: "add_file_info_to_job e job files w = (Inl x1, w1)"
      by (simp add: add_Inl_upload)
    have c2: "\<exists>ext. heap w1 = heap w @ ext" using h by simp
    have cj: "\<forall>j. to_json (heap w) job = Some j \<longrightarrow> to_json (heap w1) job = Some j"
      unfolding h by (simp add: to_json_append)
    have c3: "\<exists>evs. trace w1 = trace w @ evs \<and> (\<forall>ev\<in>set evs. \<not> is_append ev)"
      using t na by blast
    have c4: "\<forall>infos w1'. upload_loop e files [] w = (Inr infos, w1') \<longrightarrow>
              x1 = SystemExit 1 \<and> w1 = w1'\<lparr>trace := trace w1' @ [Print missing_message]\<rparr>"
      using up Inl by simp
    have c5: "\<forall>x1' w1'. upload_loop e files [] w = (Inl x1', w1') \<longrightarrow> x1 = x1' \<and> w1 = w1'"
      using up Inl by simp
    show ?thesis
      by (rule exI [of _ x1], rule exI [of _ w1]) (intro conjI r c2 cj c3 c4 c5)
  next
    case (Inr infos)
    let ?w' = "w1\<lparr>trace := trace w1 @ [Print missing_message]\<rparr>"
    from add_not_wf [OF nwf ne up [unfolded Inr]]
    have r: "add_file_info_to_job e job files w = (Inl (SystemExit 1), ?w')" .
    have c2: "\<exists>ext. heap ?w' = heap w @ ext" using h by simp
    have cj: "\<forall>j. to_json (heap w) job = Some j \<longrightarrow> to_json (heap ?w') job = Some j"
      using h by (simp add: to_json_append)
    have "trace ?w' = trace w @ (us @ [Print missing_message])" using t by simp
    moreover have "\<forall>ev\<in>set (us @ [Print missing_message]). \<not> is_append ev"
      using na by (simp add: is_append_def)
    ultimately have c3: "\<exists>evs. trace ?w' = trace w @ evs \<and> (\<forall>ev\<in>set evs. \<not> is_append ev)"
      by blast
    have c4: "\<forall>infos w1'. upload_loop e files [] w = (Inr infos, w1') \<longrightarrow>
              SystemExit 1 = SystemExit 1 \<and>
              ?w' = w1'\<lparr>trace := trace w1' @ [Print missing_message]\<rparr>"
      using up Inr by simp
    have c5: "\<forall>x1 w1'. upload_loop e files [] w = (Inl x1, w1') \<longrightarrow>
              SystemExit 1 = x1 \<and> ?w' = w1'"
      using up Inr by simp
    show ?thesis
      by (rule exI [of _ "SystemExit 1"], rule exI [of _ ?w']) (intro conjI r c2 cj c3 c4 c5)
  qed
qed

theorem malformed_template_fails_witness:
  "add_file_info_to_job two_files_env (VRef 0) [''a.txt''] bare_world =
     (Inl (SystemExit 1),
      \<lparr>heap = heap bare_world @ [file_information ''a.txt'' ''u''],
       trace = [Put ''a.txt'', Print ''200 OK https://msrd.test/'', Print missing_message]\<rparr>)"
proof -
  have ne: "[''a.txt''] \<noteq> []" by simp
  from malformed_template_fails [OF bare_not_wf ne, of two_files_env] obtain x w' where
    r: "add_file_info_to_job two_files_env (VRef 0) [''a.txt''] bare_world = (Inl x, w')" and
    s: "\<forall>infos w1. upload_loop two_files_env [''a.txt''] [] bare_world = (Inr infos, w1) \<longrightarrow>
          x = SystemExit 1 \<and> w' = w1\<lparr>trace := trace w1 @ [Print missing_message]\<rparr>"
    by blast
  from s [rule_format, OF bare_upload] r show ?thesis
    by (simp add: bare_world_def)
qed

text \<open>
  C2 as stated fails: with a job that is an empty dict and a file of 4,194,305 bytes,
  the run ends with the size message, not with the message about the missing data.
\<close>

theorem malformed_template_counterexample:
  "file_infos_list (heap bare_world) (VRef 0) = None \<and>
   add_file_info_to_job (example_env 4194305 [] JNull) (VRef 0) [''big.bin''] bare_world =
     (Inl (SystemExit 1),
      \<lparr>heap = heap bare_world, trace = [Print (size_error ''big.bin'' 4194305)]\<rparr>) \<and>
   size_error ''big.bin'' 4194305 \<noteq> missing_message"
  by (simp add: bare_world_def file_infos_list_def getitem_def lookup_def
        add_file_info_to_job_def run_defs example_defs size_error_def missing_message_def)

text \<open>
  C3. For a job whose path \<open>setup.package.fileInformations\<close> leads to a list, and a
  run of \<open>add_file_info_to_job\<close> that returns a job: the path of the returned job
  leads to the same list object, which now holds its old entries followed by the
  new ones; the new entries are the file informations the upload loop generated, one
  per file, so the length is the old length plus the number of files; and their names,
  read in list order, are the base names of the files in file list order.
\<close>

theorem appended_in_file_order:
  assumes wf: "file_infos_list (heap w) job = Some (a, old)"
    and run: "add_file_info_to_job e job files w = (Inr job', w')"
  shows "\<exists>new w1. upload_loop e files [] w = (Inr new, w1) \<and>
           file_infos_list (heap w') job' = Some (a, old @ new) \<and>
           length (old @ new) = length old + length files \<and>
           map (entry_name (heap w')) new = map (\<lambda>f. Some (VStr (path_name f))) files"
proof -
  from add_Inr_upload [OF run] obtain new w1 where
    up: "upload_loop e files [] w = (Inr new, w1)" by blast
  from upload_loop_Inr [OF up] obtain dicts where
    h1: "heap w1 = heap w @ dicts" and len: "length dicts = length files" and
    new: "new = map VRef [length (heap w) ..< length (heap w) + length files]" and
    d: "\<forall>i<length files. \<exists>u. dicts ! i = file_information (path_name (files ! i)) u"
    by auto
  from add_wf [OF wf up] run have
    j: "job' = job" and
    w': "w' = w1\<lparr>heap := (heap w1)[a := OList (old @ new)],
                  trace := trace w1 @ map (ListAppend a) new\<rparr>"
    by simp_all
  have h': "heap w' = (heap w @ dicts)[a := OList (old @ new)]" by (simp add: w' h1)
  from file_infos_list_append [OF wf, of dicts]
  have "file_infos_list (heap w @ dicts) job = Some (a, old)" .
  from file_infos_list_update [OF this, of "old @ new"] h' j
  have 1: "file_infos_list (heap w') job' = Some (a, old @ new)" by simp
  have 2: "length (old @ new) = length old + length files" by (simp add: new)
  from wf have "lookup (heap w) a = Some (OList old)" unfolding file_infos_list_Some by blast
  then have a: "a < length (heap w)" by (rule lookup_Some_less)
  have 3: "map (entry_name (heap w')) new = map (\<lambda>f. Some (VStr (path_name f))) files"
  proof (rule nth_equalityI)
    show "length (map (entry_name (heap w')) new) =
            length (map (\<lambda>f. Some (VStr (path_name f))) files)"
      by (simp add: new)
  next
    fix i assume "i < length (map (entry_name (heap w')) new)"
    then have i: "i < length files" by (simp add: new)
    with d obtain u where u: "dicts ! i = file_information (path_name (files ! i)) u" by blast
    from i have ni: "new ! i = VRef (length (heap w) + i)" by (simp add: new)
    from i len have "i < length dicts" by simp
    from entry_name_new [OF a this u, of "OList (old @ new)"] h' ni i
    show "map (entry_name (heap w')) new ! i = map (\<lambda>f. Some (VStr (path_name f))) files ! i"
      by (simp add: new)
  qed
  from up 1 2 3 show ?thesis by blast
qed

theorem appended_in_file_order_witness:
  "file_infos_list
     (heap (snd (add_file_info_to_job two_files_env example_job [''a.txt'', ''dir/b.txt'']
                   example_world)))
     example_job = Some (0, [VRef 4, VRef 5]) \<and>
   map (entry_name
          (heap (snd (add_file_info_to_job two_files_env example_job [''a.txt'', ''dir/b.txt'']
                        example_world))))
       [VRef 4, VRef 5] = [Some (VStr ''a.txt''), Some (VStr ''b.txt'')]"
proof -
  define w' where "w' = snd (add_file_info_to_job two_files_env example_job
      [''a.txt'', ''dir/b.txt''] example_world)"
  have run: "add_file_info_to_job two_files_env example_job [''a.txt'', ''dir/b.txt'']
      example_world = (Inr example_job, w')"
    unfolding w'_def using example_two_files by (simp add: example_loaded(1))
  from appended_in_file_order [OF example_wf run] obtain new w1 where
    up: "upload_loop two_files_env [''a.txt'', ''dir/b.txt''] [] example_world = (Inr new, w1)" and
    l: "file_infos_list (heap w') example_job = Some (0, [] @ new)" and
    n: "map (entry_name (heap w')) new =
          map (\<lambda>f. Some (VStr (path_name f))) [''a.txt'', ''dir/b.txt'']"
    by blast
  from up have new: "new = [VRef 4, VRef 5]" unfolding example_two_uploads by simp
  have p: "map (\<lambda>f. Some (VStr (path_name f))) [''a.txt'', ''dir/b.txt''] =
             [Some (VStr ''a.txt''), Some (VStr ''b.txt'')]"
    by (simp add: path_name_def path_parts_def)
  from l n show ?thesis unfolding w'_def [symmetric] new p by simp
qed

text \<open>
  C7 (as amended). Every run of \<open>add_file_info_to_job\<close> is the upload loop followed
  by what comes after it: the events of the loop contain no list append, the events
  after the loop contain no upload request, and the loop leaves every object of the
  store as it was (it only adds new ones behind them). When the loop fails, that is,
  when for some file \<open>stat\<close>, the size check, \<open>open\<close> or the request raises, the run
  ends with that failure in the world the loop left, so no part of the job document
  has been changed. More generally, whenever the run fails, every object of the store
  is as it was before the run and the document of the job reads back as before: a run
  either appends all entries or none. An upload that is answered is never a failure,
  whatever the status of the answer: \<open>upload_file\<close> returns the response.
\<close>

theorem uploads_before_appends:
  "\<exists>r1 w1 us as.
     upload_loop e files [] w = (r1, w1) \<and>
     trace w1 = trace w @ us \<and>
     trace (snd (add_file_info_to_job e job files w)) = trace w1 @ as \<and>
     (\<forall>ev\<in>set us. \<not> is_append ev) \<and>
     (\<forall>ev\<in>set as. \<not> is_put ev) \<and>
     (\<exists>ext. heap w1 = heap w @ ext) \<and>
     (\<forall>x. r1 = Inl x \<longrightarrow> add_file_info_to_job e job files w = (Inl x, w1)) \<and>
     (\<forall>x. fst (add_file_info_to_job e job files w) = Inl x \<longrightarrow>
          (\<exists>ext. heap (snd (add_file_info_to_job e job files w)) = heap w @ ext) \<and>
          (\<forall>j. to_json (heap w) job = Some j \<longrightarrow>
               to_json (heap (snd (add_file_info_to_job e job files w))) job = Some j)) \<and>
     (\<forall>f w0 r. open_rb e (trace w0) f \<and> put_response e (trace w0) f = Some r \<longrightarrow>
          fst (upload_file e f w0) = Inr r)"
proof -
  have answered: "\<forall>f w0 r. open_rb e (trace w0) f \<and> put_response e (trace w0) f = Some r \<longrightarrow>
          fst (upload_file e f w0) = Inr r"
    by (simp add: upload_file_def)
  obtain r1 w1 where up: "upload_loop e files [] w = (r1, w1)"
    by (cases "upload_loop e files [] w")
  from upload_loop_effect [OF up] obtain ext us where
    h: "heap w1 = heap w @ ext" and t: "trace w1 = trace w @ us" and
    na: "\<forall>ev\<in>set us. \<not> is_append ev"
    by blast
  have fail: "\<forall>x. r1 = Inl x \<longrightarrow> add_file_info_to_job e job files w = (Inl x, w1)"
    using up by (simp add: add_file_info_to_job_def)
  have "\<exists>as. trace (snd (add_file_info_to_job e job files w)) = trace w1 @ as \<and>
          (\<forall>ev\<in>set as. \<not> is_put ev)"
  proof (cases r1)
    case (Inl x)
    with up show ?thesis by (simp add: add_file_info_to_job_def)
  next
    case (Inr infos)
    show ?thesis
    proof (cases "infos = []")
      case True
      with up Inr show ?thesis by (simp add: add_file_info_to_job_def)
    next
      case False
      obtain r2 w2 where u2: "update_file_info_in_job job infos w1 = (r2, w2)"
        by (cases "update_file_info_in_job job infos w1")
      from update_no_put [OF u2] up Inr False u2 show ?thesis
        by (simp add: add_file_info_to_job_def)
    qed
  qed
  then obtain as where
    as: "trace (snd (add_file_info_to_job e job files w)) = trace w1 @ as"
        "\<forall>ev\<in>set as. \<not> is_put ev" by blast
  have whole0: "\<forall>x. fst (add_file_info_to_job e job files w) = Inl x \<longrightarrow>
          (\<exists>ext. heap (snd (add_file_info_to_job e job files w)) = heap w @ ext)"
  proof (cases r1)
    case (Inl x)
    with up h show ?thesis by (simp add: add_file_info_to_job_def)
  next
    case (Inr infos)
    show ?thesis
    proof (cases "infos = []")
      case True
      with up Inr show ?thesis by (simp add: add_file_info_to_job_def)
    next
      case False
      show ?thesis
      proof (cases "file_infos_list (heap w1) job")
        case None
        from update_not_wf [OF None False] up Inr False h show ?thesis
          by (simp add: add_file_info_to_job_def log_def)
      next
        case (Some p)
        obtain a old where "p = (a, old)" by (cases p)
        with Some update_wf [of w1 job a old infos] up Inr False show ?thesis
          by (simp add: add_file_info_to_job_def)
      qed
    qed
  qed
  have whole: "\<forall>x. fst (add_file_info_to_job e job files w) = Inl x \<longrightarrow>
          (\<exists>ext. heap (snd (add_file_info_to_job e job files w)) = heap w @ ext) \<and>
          (\<forall>j. to_json (heap w) job = Some j \<longrightarrow>
               to_json (heap (snd (add_file_info_to_job e job files w))) job = Some j)"
  proof (intro allI impI)
    fix x assume "fst (add_file_info_to_job e job files w) = Inl x"
    with whole0 obtain ext' where
      e': "heap (snd (add_file_info_to_job e job files w)) = heap w @ ext'" by blast
    have "\<forall>j. to_json (heap w) job = Some j \<longrightarrow>
               to_json (heap (snd (add_file_info_to_job e job files w))) job = Some j"
      unfolding e' by (simp add: to_json_append)
    with e' show "(\<exists>ext. heap (snd (add_file_info_to_job e job files w)) = heap w @ ext) \<and>
          (\<forall>j. to_json (heap w) job = Some j \<longrightarrow>
               to_json (heap (snd (add_file_info_to_job e job files w))) job = Some j)"
      by blast
  qed
  have ex: "\<exists>ext. heap w1 = heap w @ ext" using h by blast
  show ?thesis
    by (rule exI [of _ r1], rule exI [of _ w1], rule exI [of _ us], rule exI [of _ as])
      (intro conjI up t as na ex fail whole answered)
qed

theorem uploads_before_appends_witness:
  "add_file_info_to_job flaky_env example_job [''a.txt'', ''b.txt''] example_world =
     (Inl RequestException,
      \<lparr>heap = heap example_world @ [file_information ''a.txt'' ''u''],
       trace = [Put ''a.txt'', Print ''200 OK https://msrd.test/'', Put ''b.txt'']\<rparr>)"
proof -
  from uploads_before_appends [of flaky_env "[''a.txt'', ''b.txt'']" example_world example_job]
  obtain r1 w1 where
    up: "upload_loop flaky_env [''a.txt'', ''b.txt''] [] example_world = (r1, w1)" and
    f: "\<forall>x. r1 = Inl x \<longrightarrow>
          add_file_info_to_job flaky_env example_job [''a.txt'', ''b.txt''] example_world =
            (Inl x, w1)"
    by blast
  from up have r1: "r1 = Inl RequestException" and
    w1: "w1 = \<lparr>heap = [OList [], ODict [(''fileInformations'', VRef 0)],
                        ODict [(''package'', VRef 1)], ODict [(''setup'', VRef 2)],
                        ODict [(''action'', VStr ''DownloadOnly''), (''name'', VStr ''a.txt''),
                               (''url'', VStr ''u'')]],
                trace = [Put ''a.txt'', Print ''200 OK https://msrd.test/'', Put ''b.txt'']\<rparr>"
    unfolding flaky_uploads by simp_all
  from f r1 have "add_file_info_to_job flaky_env example_job [''a.txt'', ''b.txt'']
      example_world = (Inl RequestException, w1)" by simp
  then show ?thesis unfolding w1 by (simp add: example_loaded(2) file_information_def)
qed

text \<open>
  C7 as stated fails when a failed upload is one answered with a status that is not a
  success: the status is never looked at, so after the answer 500 the run goes on, the
  error text is stored as the url, and the document of the job is changed.
\<close>

theorem uploads_before_appends_counterexample:
  "upload_file server_error_env ''a.txt'' example_world =
     (Inr error_response,
      \<lparr>heap = heap example_world,
       trace = [Put ''a.txt'', Print ''500 Internal Server Error https://msrd.test/'']\<rparr>) \<and>
   status_code error_response = 500 \<and>
   fst (add_file_info_to_job server_error_env example_job [''a.txt''] example_world) =
     Inr example_job \<and>
   to_json (heap example_world) example_job =
     Some (JObj [(''setup'', JObj [(''package'', JObj [(''fileInformations'', JArr [])])])]) \<and>
   to_json (heap (snd (add_file_info_to_job server_error_env example_job [''a.txt'']
                         example_world))) example_job =
     Some (JObj [(''setup'', JObj [(''package'', JObj [(''fileInformations'',
       JArr [JObj [(''action'', JStr ''DownloadOnly''), (''name'', JStr ''a.txt''),
                   (''url'', JStr ''upload failed'')]])])])])"
  by (simp add: example_loaded server_error_env_def error_response_def to_json_def eval_defs)

text \<open>
  C8 does not hold of the code. With the output path \<open>out.json\<close> (which exists and can
  be opened) \<open>submit\<close> raises \<open>io.UnsupportedOperation\<close> at the dump, after the
  assembly: nothing is written and the job is never posted. Without an output path the
  same run posts the assembled job. (Lemma \<open>submit_output_path_raises\<close> has the
  general statement: with an output path, \<open>submit\<close> always ends in an exception and
  posts nothing.)
\<close>

theorem submit_with_output_path_fails:
  "submit two_files_env ''job.json'' (Some ''out.json'') [''a.txt''] empty_world =
     (Inl UnsupportedOperation,
      \<lparr>heap = [OList [VRef 4], ODict [(''fileInformations'', VRef 0)],
              ODict [(''package'', VRef 1)], ODict [(''setup'', VRef 2)],
              file_information ''a.txt'' ''u''],
       trace = [Put ''a.txt'', Print ''200 OK https://msrd.test/'', ListAppend 0 (VRef 4)]\<rparr>) \<and>
   filter is_post
     (trace (snd (submit two_files_env ''job.json'' (Some ''out.json'') [''a.txt''] empty_world)))
     = [] \<and>
   filter is_post
     (trace (snd (submit two_files_env ''job.json'' None [''a.txt''] empty_world))) =
     [Post (JObj [(''setup'', JObj [(''package'', JObj [(''fileInformations'',
        JArr [JObj [(''action'', JStr ''DownloadOnly''), (''name'', JStr ''a.txt''),
                    (''url'', JStr ''u'')]])])])])]"
  by (simp add: submit_def write_output_def truthy_def submit_job_def print_response_def
        to_json_def is_post_def two_files_env_def example_loads_def example_dumps_def eval_defs)

text \<open>
  C10. When \<open>add_file_info_to_job\<close> returns a job, it returns the value it was given
  (the same reference, not a copy). With no files the store is unchanged. With files,
  the path \<open>setup.package.fileInformations\<close> led to a list at some address \<open>a\<close> in
  the store before the run, and the store after the run is the store before it, with
  one new dict per file added at the fresh addresses behind it and the list at \<open>a\<close>
  extended, behind its old entries, by the references to those dicts: the list keeps
  its old entries as a prefix, and every other object that existed before is unchanged.
\<close>

theorem only_the_list_changes:
  assumes run: "add_file_info_to_job e job files w = (Inr job', w')"
  shows "job' = job \<and>
    (files = [] \<longrightarrow> heap w' = heap w) \<and>
    (files \<noteq> [] \<longrightarrow>
       (\<exists>a old dicts.
          file_infos_list (heap w) job = Some (a, old) \<and>
          length dicts = length files \<and>
          heap w' = (heap w @ dicts)
            [a := OList (old @ map VRef [length (heap w) ..< length (heap w) + length files])] \<and>
          lookup (heap w') a =
            Some (OList (old @ map VRef [length (heap w) ..< length (heap w) + length files])) \<and>
          (\<forall>b<length (heap w). b \<noteq> a \<longrightarrow> lookup (heap w') b = lookup (heap w) b)))"
proof (cases "files = []")
  case True
  with run show ?thesis by (simp add: add_file_info_to_job_def)
next
  case False
  from add_Inr_wf [OF run False] obtain a old where
    wf: "file_infos_list (heap w) job = Some (a, old)" by blast
  from add_Inr_upload [OF run] obtain new w1 where
    up: "upload_loop e files [] w = (Inr new, w1)" by blast
  from upload_loop_Inr [OF up] obtain dicts where
    h1: "heap w1 = heap w @ dicts" and len: "length dicts = length files" and
    new: "new = map VRef [length (heap w) ..< length (heap w) + length files]"
    by auto
  from add_wf [OF wf up] run have
    j: "job' = job" and
    w': "w' = w1\<lparr>heap := (heap w1)[a := OList (old @ new)],
                  trace := trace w1 @ map (ListAppend a) new\<rparr>"
    by simp_all
  have h': "heap w' = (heap w @ dicts)
      [a := OList (old @ map VRef [length (heap w) ..< length (heap w) + length files])]"
    by (simp add: w' h1 new)
  have fr: "\<forall>b<length (heap w). b \<noteq> a \<longrightarrow> lookup (heap w') b = lookup (heap w) b"
    by (simp add: h' lookup_update_other lookup_append_old)
  from wf have "lookup (heap w) a = Some (OList old)" unfolding file_infos_list_Some by blast
  then have "a < length (heap w @ dicts)" by (simp add: lookup_def split: if_splits)
  then have la: "lookup (heap w') a =
      Some (OList (old @ map VRef [length (heap w) ..< length (heap w) + length files]))"
    unfolding h' by (rule lookup_update_same)
  from False j wf len h' la fr show ?thesis by blast
qed

theorem only_the_list_changes_witness:
  "heap (snd (add_file_info_to_job two_files_env example_job [''a.txt'', ''dir/b.txt'']
                example_world)) =
     (heap example_world @
        [file_information ''a.txt'' ''u'', file_information ''b.txt'' ''u''])
     [0 := OList [VRef 4, VRef 5]] \<and>
   fst (add_file_info_to_job two_files_env example_job [''a.txt'', ''dir/b.txt''] example_world)
     = Inr example_job"
proof -
  define w' where "w' = snd (add_file_info_to_job two_files_env example_job
      [''a.txt'', ''dir/b.txt''] example_world)"
  have run: "add_file_info_to_job two_files_env example_job [''a.txt'', ''dir/b.txt'']
      example_world = (Inr example_job, w')"
    unfolding w'_def using example_two_files by (simp add: example_loaded(1))
  have ne: "[''a.txt'', ''dir/b.txt''] \<noteq> []" by simp
  from only_the_list_changes [OF run] ne obtain a old dicts where
    wf: "file_infos_list (heap example_world) example_job = Some (a, old)" and
    h: "heap w' = (heap example_world @ dicts)
          [a := OList (old @ map VRef [length (heap example_world) ..<
                  length (heap example_world) + length [''a.txt'', ''dir/b.txt'']])]"
    by blast
  from wf example_wf have a: "a = 0" "old = []" by simp_all
  have hv: "heap w' =
      [OList [VRef 4, VRef 5], ODict [(''fileInformations'', VRef 0)],
       ODict [(''package'', VRef 1)], ODict [(''setup'', VRef 2)],
       file_information ''a.txt'' ''u'', file_information ''b.txt'' ''u'']"
    unfolding w'_def by (simp add: example_two_files file_information_def)
  have "heap w' = (heap example_world @
        [file_information ''a.txt'' ''u'', file_information ''b.txt'' ''u''])
     [0 := OList [VRef 4, VRef 5]]"
    unfolding hv by (simp add: example_loaded(2))
  then show ?thesis unfolding w'_def [symmetric] run by simp
qed

end
